theory Spec2Isabelle
  imports Main "HOL-Library.AList" "HOL-Library.Char_ord" "HOL-Library.List_Lexorder"
begin

section \<open>Data model\<close>

text \<open>
  The generator of \<^verbatim>\<open>flask_rebar/swagger_generation/swagger_generator_v3.py\<close> builds a
  nested Python value out of dicts, lists and scalars. A Python dict keeps its keys in
  insertion order and assigning to an existing key keeps the key's position, which is
  exactly \<^const>\<open>AList.update\<close> on an association list; \<open>None\<close> is \<open>JNull\<close>.
\<close>

datatype json =
    JNull
  | JBool bool
  | JInt int
  | JStr string
  | JList "json list"
  | JDict "(string \<times> json) list"

type_synonym dict = "(string \<times> json) list"

text \<open>
  Every exception the generator can let escape is a value: the \<open>KeyError\<close> of a failed
  dict subscript, the failure raised by the parameter verification, and the failure of
  the schema collection of the components section.
\<close>

datatype error = KeyError string | ParameterMismatch | NamingConflict

text \<open>The sentinel \<open>USE_DEFAULT\<close> of \<open>flask_rebar.utils.defaults\<close>, tested with \<open>is\<close>.\<close>

datatype 'v or_default = USE_DEFAULT | Given 'v

text \<open>
  Objects of other modules (marshmallow schemas and fields, authenticators, handler
  functions, tags, servers) are opaque: the type variable \<open>'o\<close> stands for them and the
  generator only passes them to the helpers it imports.
\<close>

record path_argument =
  arg_name :: string
  arg_type :: string

record 'o path_definition =
  func :: 'o
  endpoint :: "string option"
  query_string_schema :: "'o option"
  headers_schema :: "'o option or_default"
  request_body_schema :: "'o option"
  response_body_schema :: "(int \<times> 'o option) list option"
  authenticators :: "'o or_default list"
  hidden :: bool
  tags :: "string list option"
  summary :: "string option"

record 'o handler_registry =
  paths :: "(string \<times> (string \<times> 'o path_definition) list) list"
  default_headers_schema :: "'o option"
  default_authenticators :: "'o list"

text \<open>
  The attributes of \<open>self\<close>. Those set by \<open>SwaggerGenerator.__init__\<close> of the base class
  (the converters, the authenticator converter's two methods, the table
  \<open>flask_converters_to_swagger_types\<close>) are fields like the rest: the base class is not
  part of the sources at hand, so their values are left open.
\<close>

record 'o generator =
  version :: string
  title :: string
  description :: string
  self_tags :: "'o list option"
  self_servers :: "'o list option"
  default_response_schema :: 'o
  include_hidden :: bool
  flask_converters_to_swagger_types :: "string \<rightharpoonup> string"
  query_string_converter :: "'o \<Rightarrow> dict"
  headers_converter :: "'o \<Rightarrow> dict"
  response_converter :: "'o \<Rightarrow> dict"
  request_body_converter :: "'o \<Rightarrow> dict"
  get_security_requirements :: "'o \<Rightarrow> json list"
  get_security_schemes :: "'o \<Rightarrow> dict"

text \<open>
  The functions the module imports from \<open>generator_utils\<close>, \<open>marshmallow_to_swagger\<close> and
  \<open>swagger_objects\<close>, together with the attributes it reads from foreign objects
  (\<open>field.required\<close>, \<open>func.__doc__\<close>, \<open>as_swagger()\<close>) and the base class's \<open>_get_info\<close>.
  Their code is not part of the sources at hand; the generator is modelled for every
  choice of them.
\<close>

record 'o collaborators =
  format_path_for_swagger :: "string \<Rightarrow> string \<times> path_argument list"
  verify_parameters_are_the_same :: "json \<Rightarrow> json \<Rightarrow> error + unit"
  get_response_description :: "'o \<Rightarrow> string"
  get_ref_schema :: "string \<Rightarrow> 'o \<Rightarrow> json"
  get_swagger_title :: "'o \<Rightarrow> string"
  get_schema_fields :: "'o \<Rightarrow> (string \<times> 'o) list"
  field_required :: "'o \<Rightarrow> bool"
  func_doc :: "'o \<Rightarrow> string option"
  get_unique_schema_definitions ::
    "'o handler_registry \<Rightarrow> string \<Rightarrow> 'o \<Rightarrow> ('o \<Rightarrow> dict) \<Rightarrow> ('o \<Rightarrow> dict) \<Rightarrow> error + dict"
  get_unique_authenticators :: "'o handler_registry \<Rightarrow> 'o list"
  get_info :: "string \<Rightarrow> string \<Rightarrow> string \<Rightarrow> json"
  tag_as_swagger :: "'o \<Rightarrow> json"
  server_as_swagger :: "'o \<Rightarrow> json"
  Server :: "string \<Rightarrow> 'o"

section \<open>Swagger words and Python primitives\<close>

text \<open>
  The constants of \<open>swagger_words\<close> (imported as \<open>sw\<close>) are the OpenAPI keywords
  themselves.
\<close>

abbreviation sw_name :: string where "sw_name \<equiv> ''name''"
abbreviation sw_required :: string where "sw_required \<equiv> ''required''"
abbreviation sw_in :: string where "sw_in \<equiv> ''in''"
abbreviation sw_path :: string where "sw_path \<equiv> ''path''"
abbreviation sw_query :: string where "sw_query \<equiv> ''query''"
abbreviation sw_header :: string where "sw_header \<equiv> ''header''"
abbreviation sw_style :: string where "sw_style \<equiv> ''style''"
abbreviation sw_simple :: string where "sw_simple \<equiv> ''simple''"
abbreviation sw_schema :: string where "sw_schema \<equiv> ''schema''"
abbreviation sw_type :: string where "sw_type \<equiv> ''type''"
abbreviation sw_parameters :: string where "sw_parameters \<equiv> ''parameters''"
abbreviation sw_default :: string where "sw_default \<equiv> ''default''"
abbreviation sw_description :: string where "sw_description \<equiv> ''description''"
abbreviation sw_content :: string where "sw_content \<equiv> ''content''"
abbreviation sw_explode :: string where "sw_explode \<equiv> ''explode''"
abbreviation sw_operation_id :: string where "sw_operation_id \<equiv> ''operationId''"
abbreviation sw_responses :: string where "sw_responses \<equiv> ''responses''"
abbreviation sw_request_body :: string where "sw_request_body \<equiv> ''requestBody''"
abbreviation sw_security :: string where "sw_security \<equiv> ''security''"
abbreviation sw_tags :: string where "sw_tags \<equiv> ''tags''"
abbreviation sw_summary :: string where "sw_summary \<equiv> ''summary''"
abbreviation sw_openapi :: string where "sw_openapi \<equiv> ''openapi''"
abbreviation sw_info :: string where "sw_info \<equiv> ''info''"
abbreviation sw_paths :: string where "sw_paths \<equiv> ''paths''"
abbreviation sw_components :: string where "sw_components \<equiv> ''components''"
abbreviation sw_servers :: string where "sw_servers \<equiv> ''servers''"
abbreviation sw_schemas :: string where "sw_schemas \<equiv> ''schemas''"
abbreviation sw_security_schemes :: string where "sw_security_schemes \<equiv> ''securitySchemes''"

abbreviation application_json :: string where "application_json \<equiv> ''application/json''"

text \<open>\<open>self._ref_base\<close> and \<open>_open_api_version\<close>, both fixed by the class.\<close>

abbreviation ref_base :: string where "ref_base \<equiv> ''#/components/schemas''"
abbreviation open_api_version :: string where "open_api_version \<equiv> ''3.1.0''"

text \<open>\<open>dict.pop(key, None)\<close>: the value (or \<open>None\<close>) and the dict without the key.\<close>

definition pop :: "string \<Rightarrow> dict \<Rightarrow> json \<times> dict" where
  "pop k d = ((case map_of d k of Some v \<Rightarrow> v | None \<Rightarrow> JNull), AList.delete k d)"

text \<open>\<open>str.lower()\<close> on the ASCII letters.\<close>

definition lower_char :: "char \<Rightarrow> char" where
  "lower_char c =
     (case map_of (zip ''ABCDEFGHIJKLMNOPQRSTUVWXYZ'' ''abcdefghijklmnopqrstuvwxyz'') c of
        Some l \<Rightarrow> l
      | None \<Rightarrow> c)"

definition lower :: "string \<Rightarrow> string" where
  "lower s = map lower_char s"

text \<open>\<open>str()\<close> of an integer: decimal digits, a leading minus sign when negative.\<close>

fun str_nat :: "nat \<Rightarrow> string" where
  "str_nat n =
     (if n < 10 then [''0123456789'' ! n]
      else str_nat (n div 10) @ [''0123456789'' ! (n mod 10)])"

definition str_int :: "int \<Rightarrow> string" where
  "str_int i = (if i < 0 then CHR ''-'' # str_nat (nat (- i)) else str_nat (nat i))"

section \<open>The generator\<close>

subsection \<open>Responses\<close>

definition get_response_definition :: "'o collaborators \<Rightarrow> 'o \<Rightarrow> dict" where
  "get_response_definition x schema =
     [(sw_description, JStr (get_response_description x schema)),
      (sw_content,
       JDict [(application_json, JDict [(sw_schema, get_ref_schema x ref_base schema)])])]"

text \<open>One round of the loop over \<open>d.response_body_schema.items()\<close>.\<close>

definition response_step :: "'o collaborators \<Rightarrow> int \<times> 'o option \<Rightarrow> dict \<Rightarrow> dict" where
  "response_step x item responses_definition =
     (let response_definition =
            (case snd item of
               Some schema \<Rightarrow> get_response_definition x schema
             | None \<Rightarrow> [(sw_description, JStr ''No response body.'')])
      in AList.update (str_int (fst item)) (JDict response_definition) responses_definition)"

definition responses_of :: "'o generator \<Rightarrow> 'o collaborators \<Rightarrow> 'o path_definition \<Rightarrow> dict" where
  "responses_of g x d =
     (let responses_definition =
            [(sw_default, JDict (get_response_definition x (default_response_schema g)))]
      in case response_body_schema d of
           None \<Rightarrow> responses_definition
         | Some rbs \<Rightarrow> fold (response_step x) rbs responses_definition)"

subsection \<open>Query-string and header parameters\<close>

definition convert_field :: "'o collaborators \<Rightarrow> ('o \<Rightarrow> dict) \<Rightarrow> string \<Rightarrow> string \<times> 'o \<Rightarrow> json" where
  "convert_field x converter param_in pf =
     (let jsonschema = converter (snd pf);
          (explode, jsonschema) = pop sw_explode jsonschema;
          (descr, jsonschema) = pop sw_description jsonschema;
          (style, jsonschema) = pop sw_style jsonschema;
          parameter =
            [(sw_name, JStr (fst pf)),
             (sw_in, JStr param_in),
             (sw_schema, JDict jsonschema),
             (sw_required, JBool (field_required x (snd pf)))];
          parameter = (if explode \<noteq> JNull then AList.update sw_explode explode parameter else parameter);
          parameter =
            (if descr \<noteq> JNull then AList.update sw_description descr parameter
             else parameter);
          parameter = (if style \<noteq> JNull then AList.update sw_style style parameter else parameter)
      in JDict parameter)"

definition convert_schema_to_list_of_parameters ::
  "'o collaborators \<Rightarrow> 'o \<Rightarrow> ('o \<Rightarrow> dict) \<Rightarrow> string \<Rightarrow> json list" where
  "convert_schema_to_list_of_parameters x schema converter param_in =
     map (convert_field x converter param_in) (get_schema_fields x schema)"

subsection \<open>Security of an operation\<close>

text \<open>
  The loop over \<open>d.authenticators\<close>, with its two locals \<open>non_default\<close> and \<open>security\<close>
  as the state.
\<close>

fun security_step :: "'o generator \<Rightarrow> json list option \<Rightarrow> 'o or_default \<Rightarrow> bool \<times> json list \<Rightarrow> bool \<times> json list" where
  "security_step g default_security (Given authenticator) (non_default, security) =
     (True, security @ get_security_requirements g authenticator)"
| "security_step g default_security USE_DEFAULT (non_default, security) =
     (case default_security of
        Some ds \<Rightarrow> (non_default, security @ ds)
      | None \<Rightarrow> (non_default, security))"

text \<open>
  The value assigned to the operation's \<open>security\<close> key, \<open>None\<close> when neither branch of
  \<open>if not d.authenticators: ... else: ...\<close> assigns it.
\<close>

definition security_of :: "'o generator \<Rightarrow> json list option \<Rightarrow> 'o path_definition \<Rightarrow> json option" where
  "security_of g default_security d =
     (if authenticators d = [] then Some (JList [])
      else
        (let (non_default, security) =
               fold (security_step g default_security) (authenticators d) (False, [])
         in if non_default then Some (JList security) else None))"

subsection \<open>One operation\<close>

text \<open>
  Python truthiness of an optional string or list: the value when it is neither \<open>None\<close>
  nor empty. A statement \<open>if v: op[k] = v'\<close> is \<open>assign k\<close> of the optional \<open>v'\<close>.
  An optional schema object is tested the same way (\<open>if d.query_string_schema:\<close>); a
  schema object defines neither \<open>__bool__\<close> nor \<open>__len__\<close>, so it is truthy exactly when it
  is not \<open>None\<close>.
\<close>

definition truthy :: "'a list option \<Rightarrow> 'a list option" where
  "truthy v = (case v of Some l \<Rightarrow> (if l \<noteq> [] then Some l else None) | None \<Rightarrow> None)"

definition assign :: "string \<Rightarrow> json option \<Rightarrow> dict \<Rightarrow> dict" where
  "assign k v d = (case v of Some v' \<Rightarrow> AList.update k v' d | None \<Rightarrow> d)"

definition parameters_of :: "'o generator \<Rightarrow> 'o collaborators \<Rightarrow> 'o option \<Rightarrow> 'o path_definition \<Rightarrow> json list" where
  "parameters_of g x default_headers d =
     (let parameters_definition =
            (case query_string_schema d of
               Some schema \<Rightarrow> convert_schema_to_list_of_parameters x schema (query_string_converter g) sw_query
             | None \<Rightarrow> []);
          headers = (case headers_schema d of USE_DEFAULT \<Rightarrow> default_headers | Given h \<Rightarrow> h)
      in case headers of
           Some schema \<Rightarrow>
             parameters_definition @
             convert_schema_to_list_of_parameters x schema (headers_converter g) sw_header
         | None \<Rightarrow> parameters_definition)"

definition request_body_of :: "'o collaborators \<Rightarrow> 'o path_definition \<Rightarrow> json option" where
  "request_body_of x d =
     (case request_body_schema d of
        Some schema \<Rightarrow>
          Some (JDict
            [(sw_required, JBool True),
             (sw_content,
              JDict [(application_json, JDict [(sw_schema, get_ref_schema x ref_base schema)])])])
      | None \<Rightarrow> None)"

text \<open>
  The body of the loop over \<open>methods.items()\<close> for an endpoint that is not filtered out:
  the dict stored under \<open>path_definition[method_lower]\<close> once all of its keys are set.
  \<open>operation_from\<close> is the part after \<open>parameters_definition\<close> has been computed.
\<close>

definition operation_from ::
  "'o generator \<Rightarrow> 'o collaborators \<Rightarrow> json list option \<Rightarrow> 'o path_definition \<Rightarrow> json list \<Rightarrow> dict" where
  "operation_from g x default_security d parameters_definition =
     (let op =
            [(sw_operation_id,
              JStr (case truthy (endpoint d) of
                      Some e \<Rightarrow> e
                    | None \<Rightarrow> get_swagger_title x (func d))),
             (sw_responses, JDict (responses_of g x d))];
          op = assign sw_description (map_option JStr (truthy (func_doc x (func d)))) op;
          op =
            assign sw_parameters
              (if parameters_definition \<noteq> [] then Some (JList parameters_definition) else None) op;
          op = assign sw_request_body (request_body_of x d) op;
          op = assign sw_security (security_of g default_security d) op;
          op = assign sw_tags (map_option (\<lambda>ts. JList (map JStr ts)) (truthy (tags d))) op;
          op = assign sw_summary (map_option JStr (truthy (summary d))) op
      in op)"

definition operation ::
  "'o generator \<Rightarrow> 'o collaborators \<Rightarrow> 'o option \<Rightarrow> json list option \<Rightarrow> 'o path_definition \<Rightarrow> dict" where
  "operation g x default_headers default_security d =
     operation_from g x default_security d (parameters_of g x default_headers d)"

definition method_step ::
  "'o generator \<Rightarrow> 'o collaborators \<Rightarrow> 'o option \<Rightarrow> json list option \<Rightarrow>
   string \<times> 'o path_definition \<Rightarrow> dict \<Rightarrow> dict" where
  "method_step g x default_headers default_security md path_definition =
     (if \<not> include_hidden g \<and> hidden (snd md) then path_definition
      else AList.update (lower (fst md))
             (JDict (operation g x default_headers default_security (snd md)))
             path_definition)"

subsection \<open>Paths\<close>

text \<open>
  The list comprehension that builds \<open>path_params\<close>: the subscript of
  \<open>flask_converters_to_swagger_types\<close> raises \<open>KeyError\<close> at the first converter tag that
  is not a key of the table.
\<close>

definition path_param :: "path_argument \<Rightarrow> string \<Rightarrow> json" where
  "path_param path_arg swagger_type =
     JDict
       [(sw_name, JStr (arg_name path_arg)),
        (sw_required, JBool True),
        (sw_in, JStr sw_path),
        (sw_style, JStr sw_simple),
        (sw_schema, JDict [(sw_type, JStr swagger_type)])]"

fun path_params_of :: "'o generator \<Rightarrow> path_argument list \<Rightarrow> error + json list" where
  "path_params_of g [] = Inr []"
| "path_params_of g (path_arg # path_args) =
     (case flask_converters_to_swagger_types g (arg_type path_arg) of
        None \<Rightarrow> Inl (KeyError (arg_type path_arg))
      | Some swagger_type \<Rightarrow>
          (case path_params_of g path_args of
             Inl e \<Rightarrow> Inl e
           | Inr path_params \<Rightarrow> Inr (path_param path_arg swagger_type # path_params)))"

text \<open>The test \<open>not self.include_hidden and all(d.hidden for method, d in methods.items())\<close>.\<close>

definition skipped :: "'o generator \<Rightarrow> (string \<times> 'o path_definition) list \<Rightarrow> bool" where
  "skipped g methods = (\<not> include_hidden g \<and> list_all (\<lambda>md. hidden (snd md)) methods)"

text \<open>
  The \<open>if path_args:\<close> block: build the parameters, verify them against the ones already
  stored under the spec path, then store them.
\<close>

definition set_path_params ::
  "'o generator \<Rightarrow> 'o collaborators \<Rightarrow> path_argument list \<Rightarrow> dict \<Rightarrow> error + dict" where
  "set_path_params g x path_args path_definition =
     (if path_args = [] then Inr path_definition
      else
        (case path_params_of g path_args of
           Inl e \<Rightarrow> Inl e
         | Inr path_params \<Rightarrow>
             (case (case map_of path_definition sw_parameters of
                      Some stored \<Rightarrow> verify_parameters_are_the_same x stored (JList path_params)
                    | None \<Rightarrow> Inr ()) of
                Inl e \<Rightarrow> Inl e
              | Inr _ \<Rightarrow> Inr (AList.update sw_parameters (JList path_params) path_definition))))"

text \<open>
  One round of the loop over \<open>paths.items()\<close>. \<open>path_definition\<close> is the dict stored
  under the spec path (a fresh one, stored at once, when the spec path is new); the
  source mutates it in place, the model writes it back under the same key.
\<close>

definition path_step ::
  "'o generator \<Rightarrow> 'o collaborators \<Rightarrow> 'o option \<Rightarrow> json list option \<Rightarrow>
   string \<times> (string \<times> 'o path_definition) list \<Rightarrow> (string \<times> dict) list \<Rightarrow> error + (string \<times> dict) list" where
  "path_step g x default_headers default_security pm path_definitions =
     (let (spec_path, path_args) = format_path_for_swagger x (fst pm) in
        if skipped g (snd pm) then Inr path_definitions
        else
          (let path_definition =
                 (case map_of path_definitions spec_path of Some pd \<Rightarrow> pd | None \<Rightarrow> [])
           in case set_path_params g x path_args path_definition of
                Inl e \<Rightarrow> Inl e
              | Inr path_definition \<Rightarrow>
                  Inr (AList.update spec_path
                         (fold (method_step g x default_headers default_security) (snd pm)
                            path_definition)
                         path_definitions)))"

fun get_paths_loop ::
  "'o generator \<Rightarrow> 'o collaborators \<Rightarrow> 'o option \<Rightarrow> json list option \<Rightarrow>
   (string \<times> (string \<times> 'o path_definition) list) list \<Rightarrow> (string \<times> dict) list \<Rightarrow> error + (string \<times> dict) list" where
  "get_paths_loop g x dhs ds [] path_definitions = Inr path_definitions"
| "get_paths_loop g x dhs ds (pm # rest) path_definitions =
     (case path_step g x dhs ds pm path_definitions of
        Inl e \<Rightarrow> Inl e
      | Inr path_definitions' \<Rightarrow> get_paths_loop g x dhs ds rest path_definitions')"

definition get_paths ::
  "'o generator \<Rightarrow> 'o collaborators \<Rightarrow> (string \<times> (string \<times> 'o path_definition) list) list \<Rightarrow>
   'o option \<Rightarrow> json list option \<Rightarrow> error + (string \<times> dict) list" where
  "get_paths g x path_map default_headers default_security =
     get_paths_loop g x default_headers default_security path_map []"

subsection \<open>Components and the document\<close>

definition get_components :: "'o generator \<Rightarrow> 'o collaborators \<Rightarrow> 'o handler_registry \<Rightarrow> error + dict" where
  "get_components g x registry =
     (case get_unique_schema_definitions x registry ref_base (default_response_schema g)
             (response_converter g) (request_body_converter g) of
        Inl e \<Rightarrow> Inl e
      | Inr schemas \<Rightarrow>
          (let components = (if schemas \<noteq> [] then [(sw_schemas, JDict schemas)] else []);
               security_schemes =
                 fold (\<lambda>authenticator security_schemes.
                         fold (\<lambda>kv. AList.update (fst kv) (snd kv))
                           (get_security_schemes g authenticator) security_schemes)
                   (get_unique_authenticators x registry) [];
               components =
                 (if security_schemes \<noteq> []
                  then AList.update sw_security_schemes (JDict security_schemes) components
                  else components)
           in Inr components))"

text \<open>
  Modelled from the spec: \<open>recursively_convert_dict_to_ordered_dict\<close> of
  \<open>generator_utils\<close>, whose code is not part of the sources at hand. The specification
  has it "recursively produce a canonical key-ordering of the whole document (object
  keys sorted lexicographically at every level)".
\<close>

fun recursively_convert_dict_to_ordered_dict :: "json \<Rightarrow> json" where
  "recursively_convert_dict_to_ordered_dict (JDict kvs) =
     JDict (sort_key fst (map (\<lambda>(k, v). (k, recursively_convert_dict_to_ordered_dict v)) kvs))"
| "recursively_convert_dict_to_ordered_dict (JList xs) =
     JList (map recursively_convert_dict_to_ordered_dict xs)"
| "recursively_convert_dict_to_ordered_dict j = j"

definition paths_json :: "(string \<times> dict) list \<Rightarrow> json" where
  "paths_json path_definitions = JDict (map (\<lambda>(spec_path, pd). (spec_path, JDict pd)) path_definitions)"

text \<open>
  The assembly of the document (lines 131 to 155) from the components, the default
  security and the paths section.
\<close>

definition document ::
  "'o generator \<Rightarrow> 'o collaborators \<Rightarrow> string option \<Rightarrow> bool \<Rightarrow> dict \<Rightarrow> json list \<Rightarrow>
   (string \<times> dict) list \<Rightarrow> json" where
  "document g x host sort_keys components default_security path_definitions =
     (let swagger =
            [(sw_openapi, JStr open_api_version),
             (sw_info, get_info x (version g) (title g) (description g)),
             (sw_paths, paths_json path_definitions),
             (sw_components, JDict components)];
          swagger =
            (if default_security \<noteq> [] then AList.update sw_security (JList default_security) swagger
             else swagger);
          swagger =
            (case self_tags g of
               Some ts \<Rightarrow>
                 (if ts \<noteq> [] then AList.update sw_tags (JList (map (tag_as_swagger x) ts)) swagger
                  else swagger)
             | None \<Rightarrow> swagger);
          servers = (case self_servers g of Some ss \<Rightarrow> ss | None \<Rightarrow> []);
          servers =
            (case host of
               Some h \<Rightarrow> (if h \<noteq> [] then servers @ [Server x h] else servers)
             | None \<Rightarrow> servers);
          swagger =
            (if servers \<noteq> [] then AList.update sw_servers (JList (map (server_as_swagger x) servers)) swagger
             else swagger)
      in if sort_keys then recursively_convert_dict_to_ordered_dict (JDict swagger)
         else JDict swagger)"

definition generate ::
  "'o generator \<Rightarrow> 'o collaborators \<Rightarrow> 'o handler_registry \<Rightarrow> string option \<Rightarrow> bool \<Rightarrow> error + json" where
  "generate g x registry host sort_keys =
     (case get_components g x registry of
        Inl e \<Rightarrow> Inl e
      | Inr components \<Rightarrow>
          (let default_security = concat (map (get_security_requirements g) (default_authenticators registry))
           in case get_paths g x (paths registry) (default_headers_schema registry) (Some default_security) of
                Inl e \<Rightarrow> Inl e
              | Inr path_definitions \<Rightarrow>
                  Inr (document g x host sort_keys components default_security path_definitions)))"

subsection \<open>The dicts of the converters as a store\<close>

text \<open>
  Lines 365 to 367 pop the three hints from the dict that the converter returned, in
  place. Everything else the module writes to is a dict or a list it has built itself
  (\<open>servers\<close> is a copy of \<open>self.servers\<close>), and the registry and the schemas are only read.
  Whether the pops can be seen from outside depends on who owns the popped dict: a
  converter may build a dict for each call, or hand out a dict that it keeps. The store
  holds the dicts that converters keep, by address, and a converter answers with a
  \<open>handout\<close>. The functions below are the ones above with the store passed along; a run
  that raises returns no store.

  The nested schema of a parameter is the popped dict itself. The model stores its
  value: converters do not write to the store, and further pops do not change a dict
  whose hints are gone.
\<close>

type_synonym store = "nat \<Rightarrow> dict"

datatype handout = Fresh dict | Shared nat

fun view :: "store \<Rightarrow> handout \<Rightarrow> dict" where
  "view s (Fresh jsonschema) = jsonschema"
| "view s (Shared a) = s a"

definition popped :: "dict \<Rightarrow> dict" where
  "popped jsonschema = snd (pop sw_style (snd (pop sw_description (snd (pop sw_explode jsonschema)))))"

fun after_pops :: "store \<Rightarrow> handout \<Rightarrow> store" where
  "after_pops s (Fresh jsonschema) = s"
| "after_pops s (Shared a) = s(a := popped (s a))"

definition convert_field_st ::
  "'o collaborators \<Rightarrow> ('o \<Rightarrow> handout) \<Rightarrow> string \<Rightarrow> string \<times> 'o \<Rightarrow> store \<Rightarrow> json \<times> store" where
  "convert_field_st x converter param_in pf s =
     (convert_field x (\<lambda>field. view s (converter field)) param_in pf,
      after_pops s (converter (snd pf)))"

fun convert_fields_st ::
  "'o collaborators \<Rightarrow> ('o \<Rightarrow> handout) \<Rightarrow> string \<Rightarrow> (string \<times> 'o) list \<Rightarrow> store \<Rightarrow> json list \<times> store" where
  "convert_fields_st x converter param_in [] s = ([], s)"
| "convert_fields_st x converter param_in (pf # pfs) s =
     (let (parameter, s) = convert_field_st x converter param_in pf s;
          (parameters, s) = convert_fields_st x converter param_in pfs s
      in (parameter # parameters, s))"

definition convert_schema_to_list_of_parameters_st ::
  "'o collaborators \<Rightarrow> 'o \<Rightarrow> ('o \<Rightarrow> handout) \<Rightarrow> string \<Rightarrow> store \<Rightarrow> json list \<times> store" where
  "convert_schema_to_list_of_parameters_st x schema converter param_in s =
     convert_fields_st x converter param_in (get_schema_fields x schema) s"

definition parameters_of_st ::
  "'o collaborators \<Rightarrow> ('o \<Rightarrow> handout) \<Rightarrow> ('o \<Rightarrow> handout) \<Rightarrow> 'o option \<Rightarrow> 'o path_definition \<Rightarrow>
   store \<Rightarrow> json list \<times> store" where
  "parameters_of_st x query_converter header_converter default_headers d s =
     (let (parameters_definition, s) =
            (case query_string_schema d of
               Some schema \<Rightarrow> convert_schema_to_list_of_parameters_st x schema query_converter sw_query s
             | None \<Rightarrow> ([], s));
          headers = (case headers_schema d of USE_DEFAULT \<Rightarrow> default_headers | Given h \<Rightarrow> h)
      in case headers of
           Some schema \<Rightarrow>
             (let (header_parameters, s) =
                    convert_schema_to_list_of_parameters_st x schema header_converter sw_header s
              in (parameters_definition @ header_parameters, s))
         | None \<Rightarrow> (parameters_definition, s))"

definition method_step_st ::
  "'o generator \<Rightarrow> 'o collaborators \<Rightarrow> ('o \<Rightarrow> handout) \<Rightarrow> ('o \<Rightarrow> handout) \<Rightarrow> 'o option \<Rightarrow>
   json list option \<Rightarrow> string \<times> 'o path_definition \<Rightarrow> dict \<times> store \<Rightarrow> dict \<times> store" where
  "method_step_st g x query_converter header_converter default_headers default_security md ps =
     (if \<not> include_hidden g \<and> hidden (snd md) then ps
      else
        (let (parameters_definition, s) =
               parameters_of_st x query_converter header_converter default_headers (snd md) (snd ps)
         in (AList.update (lower (fst md))
               (JDict (operation_from g x default_security (snd md) parameters_definition))
               (fst ps),
             s)))"

definition path_step_st ::
  "'o generator \<Rightarrow> 'o collaborators \<Rightarrow> ('o \<Rightarrow> handout) \<Rightarrow> ('o \<Rightarrow> handout) \<Rightarrow> 'o option \<Rightarrow>
   json list option \<Rightarrow> string \<times> (string \<times> 'o path_definition) list \<Rightarrow>
   (string \<times> dict) list \<times> store \<Rightarrow> error + (string \<times> dict) list \<times> store" where
  "path_step_st g x query_converter header_converter default_headers default_security pm ps =
     (let (spec_path, path_args) = format_path_for_swagger x (fst pm) in
        if skipped g (snd pm) then Inr ps
        else
          (let path_definition =
                 (case map_of (fst ps) spec_path of Some pd \<Rightarrow> pd | None \<Rightarrow> [])
           in case set_path_params g x path_args path_definition of
                Inl e \<Rightarrow> Inl e
              | Inr path_definition \<Rightarrow>
                  (let (path_definition, s) =
                         fold (method_step_st g x query_converter header_converter
                                 default_headers default_security)
                           (snd pm) (path_definition, snd ps)
                   in Inr (AList.update spec_path path_definition (fst ps), s))))"

fun get_paths_loop_st ::
  "'o generator \<Rightarrow> 'o collaborators \<Rightarrow> ('o \<Rightarrow> handout) \<Rightarrow> ('o \<Rightarrow> handout) \<Rightarrow> 'o option \<Rightarrow>
   json list option \<Rightarrow> (string \<times> (string \<times> 'o path_definition) list) list \<Rightarrow>
   (string \<times> dict) list \<times> store \<Rightarrow> error + (string \<times> dict) list \<times> store" where
  "get_paths_loop_st g x qc hc dhs ds [] ps = Inr ps"
| "get_paths_loop_st g x qc hc dhs ds (pm # rest) ps =
     (case path_step_st g x qc hc dhs ds pm ps of
        Inl e \<Rightarrow> Inl e
      | Inr ps' \<Rightarrow> get_paths_loop_st g x qc hc dhs ds rest ps')"

definition get_paths_st ::
  "'o generator \<Rightarrow> 'o collaborators \<Rightarrow> ('o \<Rightarrow> handout) \<Rightarrow> ('o \<Rightarrow> handout) \<Rightarrow>
   (string \<times> (string \<times> 'o path_definition) list) list \<Rightarrow> 'o option \<Rightarrow> json list option \<Rightarrow>
   store \<Rightarrow> error + (string \<times> dict) list \<times> store" where
  "get_paths_st g x query_converter header_converter path_map default_headers default_security s =
     get_paths_loop_st g x query_converter header_converter default_headers default_security path_map ([], s)"

definition generate_st ::
  "'o generator \<Rightarrow> 'o collaborators \<Rightarrow> ('o \<Rightarrow> handout) \<Rightarrow> ('o \<Rightarrow> handout) \<Rightarrow> 'o handler_registry \<Rightarrow>
   string option \<Rightarrow> bool \<Rightarrow> store \<Rightarrow> error + json \<times> store" where
  "generate_st g x query_converter header_converter registry host sort_keys s =
     (case get_components g x registry of
        Inl e \<Rightarrow> Inl e
      | Inr components \<Rightarrow>
          (let default_security = concat (map (get_security_requirements g) (default_authenticators registry))
           in case get_paths_st g x query_converter header_converter (paths registry)
                     (default_headers_schema registry) (Some default_security) s of
                Inl e \<Rightarrow> Inl e
              | Inr (path_definitions, s) \<Rightarrow>
                  Inr (document g x host sort_keys components default_security path_definitions, s)))"


section \<open>Collaborators modelled from the specification\<close>

text \<open>
  Modelled from the spec: \<open>format_path_for_swagger\<close> of \<open>generator_utils\<close>, whose code is
  not part of the sources at hand. The specification gives the contract "\<open>format(rawPathTemplate)
  -> (specPathTemplate, orderedPathArgs)\<close>. Framework path syntax embeds a parameter name
  and an optional converter/type tag per placeholder (e.g. \<open><int:id>\<close>); output syntax
  uses a different placeholder convention (e.g. \<open>{id}\<close>)". A placeholder without a tag
  gets the tag \<open>string\<close>. The generator itself is modelled for every formatter; this one
  serves the concrete examples.
\<close>

definition split_placeholder :: "string \<Rightarrow> string \<times> string" where
  "split_placeholder inner =
     (if CHR '':'' \<in> set inner
      then (takeWhile (\<lambda>c. c \<noteq> CHR '':'') inner, tl (dropWhile (\<lambda>c. c \<noteq> CHR '':'') inner))
      else (''string'', inner))"

fun format_chars :: "string \<Rightarrow> string option \<Rightarrow> string \<times> path_argument list" where
  "format_chars [] None = ([], [])"
| "format_chars [] (Some inner) = (CHR ''<'' # inner, [])"
| "format_chars (c # cs) None =
     (if c = CHR ''<'' then format_chars cs (Some [])
      else (let (spec_path, path_args) = format_chars cs None in (c # spec_path, path_args)))"
| "format_chars (c # cs) (Some inner) =
     (if c = CHR ''>''
      then (let (tag, name) = split_placeholder inner;
                (spec_path, path_args) = format_chars cs None
            in (CHR ''{'' # name @ CHR ''}'' # spec_path,
                \<lparr>arg_name = name, arg_type = tag\<rparr> # path_args))
      else format_chars cs (Some (inner @ [c])))"

definition format_path_for_swagger_spec :: "string \<Rightarrow> string \<times> path_argument list" where
  "format_path_for_swagger_spec path = format_chars path None"

text \<open>
  Modelled from the spec: \<open>verify_parameters_are_the_same\<close> of \<open>generator_utils\<close>, whose
  code is not part of the sources at hand. The specification: "if the two occurrences
  declare different types for the same named parameter, this is a fatal configuration
  error (signal: parameter-mismatch failure)". The generator itself is modelled for
  every verifier; this one serves the concrete examples.
\<close>

definition dict_get :: "string \<Rightarrow> json \<Rightarrow> json option" where
  "dict_get k j = (case j of JDict kvs \<Rightarrow> map_of kvs k | _ \<Rightarrow> None)"

definition declared_type :: "json \<Rightarrow> json option" where
  "declared_type parameter =
     (case dict_get sw_schema parameter of Some s \<Rightarrow> dict_get sw_type s | None \<Rightarrow> None)"

definition elements :: "json \<Rightarrow> json list" where
  "elements j = (case j of JList xs \<Rightarrow> xs | _ \<Rightarrow> [])"

definition verify_parameters_are_the_same_spec :: "json \<Rightarrow> json \<Rightarrow> error + unit" where
  "verify_parameters_are_the_same_spec a b =
     (if list_ex (\<lambda>p. list_ex (\<lambda>q. dict_get sw_name p = dict_get sw_name q \<and>
                                       declared_type p \<noteq> declared_type q) (elements b)) (elements a)
      then Inl ParameterMismatch else Inr ())"

section \<open>An example configuration\<close>

text \<open>
  A concrete generator, concrete collaborators and a concrete endpoint, on which the
  definitions above can be evaluated. Foreign objects are named by strings.
\<close>

definition example_collaborators :: "string collaborators" where
  "example_collaborators =
     \<lparr>format_path_for_swagger = format_path_for_swagger_spec,
      verify_parameters_are_the_same = verify_parameters_are_the_same_spec,
      get_response_description = (\<lambda>schema. schema),
      get_ref_schema = (\<lambda>base schema. JDict [(''$ref'', JStr (base @ ''/'' @ schema))]),
      get_swagger_title = (\<lambda>obj. obj),
      get_schema_fields = (\<lambda>schema. []),
      field_required = (\<lambda>field. False),
      func_doc = (\<lambda>f. None),
      get_unique_schema_definitions = (\<lambda>registry base schema rc bc. Inr []),
      get_unique_authenticators = (\<lambda>registry. []),
      get_info = (\<lambda>v t d. JDict [(''version'', JStr v), (''title'', JStr t)]),
      tag_as_swagger = JStr,
      server_as_swagger = (\<lambda>server. JDict [(''url'', JStr server)]),
      Server = (\<lambda>url. url)\<rparr>"

definition example_generator :: "string generator" where
  "example_generator =
     \<lparr>version = ''1.0.0'', title = ''My API'', description = [],
      self_tags = None, self_servers = None,
      default_response_schema = ''Error'',
      include_hidden = False,
      flask_converters_to_swagger_types =
        [''string'' \<mapsto> ''string'', ''path'' \<mapsto> ''string'', ''uuid'' \<mapsto> ''string'',
         ''int'' \<mapsto> ''integer'', ''float'' \<mapsto> ''number''],
      query_string_converter = (\<lambda>field. [(sw_type, JStr ''string'')]),
      headers_converter = (\<lambda>field. [(sw_type, JStr ''string'')]),
      response_converter = (\<lambda>schema. []),
      request_body_converter = (\<lambda>schema. []),
      get_security_requirements = (\<lambda>authenticator. [JDict [(authenticator, JList [])]]),
      get_security_schemes = (\<lambda>authenticator. [(authenticator, JDict [(sw_type, JStr ''apiKey'')])])\<rparr>"

definition example_endpoint :: "string path_definition" where
  "example_endpoint =
     \<lparr>func = ''get_widget'', endpoint = None, query_string_schema = None,
      headers_schema = USE_DEFAULT, request_body_schema = None,
      response_body_schema = None, authenticators = [USE_DEFAULT],
      hidden = False, tags = None, summary = None\<rparr>"

section \<open>Notions used in the statements\<close>

text \<open>The value stored in the paths section under a spec path and a key of its path item.\<close>

definition entry :: "(string \<times> dict) list \<Rightarrow> string \<Rightarrow> string \<Rightarrow> json option" where
  "entry pds sp k = (case map_of pds sp of Some item \<Rightarrow> map_of item k | None \<Rightarrow> None)"

text \<open>
  \<open>v\<close> is the parameter list built from the placeholders of a registered path template
  that formats to \<open>sp\<close> and is not skipped.
\<close>

definition from_path_args ::
  "'o generator \<Rightarrow> 'o collaborators \<Rightarrow> (string \<times> (string \<times> 'o path_definition) list) list \<Rightarrow> string \<Rightarrow> json \<Rightarrow> bool" where
  "from_path_args g x ps sp v =
     list_ex (\<lambda>pm. \<not> skipped g (snd pm) \<and> fst (format_path_for_swagger x (fst pm)) = sp \<and>
                 snd (format_path_for_swagger x (fst pm)) \<noteq> [] \<and>
                 map_sum id JList (path_params_of g (snd (format_path_for_swagger x (fst pm)))) = Inr v) ps"

text \<open>
  \<open>d\<close> is registered under a path template that formats to \<open>sp\<close>, with a method whose
  lower-case name is \<open>k\<close>, and is not filtered out as hidden.
\<close>

definition emitted_endpoint ::
  "'o generator \<Rightarrow> 'o collaborators \<Rightarrow> (string \<times> (string \<times> 'o path_definition) list) list \<Rightarrow>
   string \<Rightarrow> string \<Rightarrow> 'o path_definition \<Rightarrow> bool" where
  "emitted_endpoint g x ps sp k d =
     list_ex (\<lambda>pm. fst (format_path_for_swagger x (fst pm)) = sp \<and>
                 list_ex (\<lambda>md. snd md = d \<and> lower (fst md) = k \<and> (include_hidden g \<or> \<not> hidden d)) (snd pm)) ps"

text \<open>The registry without its hidden endpoints, and the registry with no endpoint marked hidden.\<close>

definition drop_hidden ::
  "(string \<times> (string \<times> 'o path_definition) list) list \<Rightarrow> (string \<times> (string \<times> 'o path_definition) list) list" where
  "drop_hidden ps = map (\<lambda>pm. (fst pm, filter (\<lambda>md. \<not> hidden (snd md)) (snd pm))) ps"

definition unhide ::
  "(string \<times> (string \<times> 'o path_definition) list) list \<Rightarrow> (string \<times> (string \<times> 'o path_definition) list) list" where
  "unhide ps = map (\<lambda>pm. (fst pm, map (\<lambda>md. (fst md, (snd md)\<lparr>hidden := False\<rparr>)) (snd pm))) ps"


definition example_registry_paths :: "(string \<times> (string \<times> string path_definition) list) list" where
  "example_registry_paths =
     [(''/widgets/<int:id>'',
       [(''GET'', example_endpoint), (''DELETE'', example_endpoint\<lparr>hidden := True\<rparr>)])]"

text \<open>The entry of the responses dict for a declared schema or the explicit \<open>None\<close>.\<close>

definition response_entry :: "'o collaborators \<Rightarrow> 'o option \<Rightarrow> json" where
  "response_entry x s =
     JDict (case s of Some schema \<Rightarrow> get_response_definition x schema
            | None \<Rightarrow> [(sw_description, JStr ''No response body.'')])"

text \<open>A registry of one path with one endpoint, and the paths section it yields.\<close>

definition example_widgets :: "string path_definition \<Rightarrow> (string \<times> (string \<times> string path_definition) list) list" where
  "example_widgets d = [(''/widgets'', [(''GET'', d)])]"

definition example_section :: "json list \<Rightarrow> string path_definition \<Rightarrow> (string \<times> dict) list" where
  "example_section ds d =
     [(''/widgets'', [(''get'', JDict (operation example_generator example_collaborators None (Some ds) d))])]"

text \<open>
  What the field converter produced for a presentation hint: the value under the key when
  there is one other than \<open>None\<close>.
\<close>

definition hint :: "dict \<Rightarrow> string \<Rightarrow> json option" where
  "hint jsonschema h =
     (case map_of jsonschema h of Some v \<Rightarrow> (if v \<noteq> JNull then Some v else None) | None \<Rightarrow> None)"

text \<open>A schema with one required field, and a converter that yields an explode hint and a null description.\<close>

definition example_field_collaborators :: "string collaborators" where
  "example_field_collaborators =
     example_collaborators\<lparr>get_schema_fields := (\<lambda>schema. [(''limit'', ''Integer'')]),
                            field_required := (\<lambda>field. True)\<rparr>"

definition example_field_converter :: "string \<Rightarrow> dict" where
  "example_field_converter field =
     [(sw_type, JStr ''array''), (sw_explode, JBool True), (sw_description, JNull)]"

text \<open>
  A registry whose second path is fully hidden, and one with two visible paths whose
  placeholders conflict.
\<close>

definition example_registry :: "string handler_registry" where
  "example_registry =
     \<lparr>paths =
        [(''/widgets/<int:id>'', [(''GET'', example_endpoint)]),
         (''/widgets/<string:id>'', [(''GET'', example_endpoint\<lparr>hidden := True\<rparr>)])],
      default_headers_schema = None,
      default_authenticators = [''basic'']\<rparr>"

definition example_conflict_registry :: "string handler_registry" where
  "example_conflict_registry =
     \<lparr>paths =
        [(''/widgets/<int:id>'', [(''GET'', example_endpoint)]),
         (''/widgets/<string:id>'', [(''POST'', example_endpoint)])],
      default_headers_schema = None,
      default_authenticators = []\<rparr>"

text \<open>
  A handout is settled when the pops of lines 365 to 367 leave the store as it is: the
  dict was built for the call, or the kept dict holds none of the three hints.
\<close>

fun settled :: "store \<Rightarrow> handout \<Rightarrow> bool" where
  "settled s (Fresh jsonschema) = True"
| "settled s (Shared a) =
     (map_of (s a) sw_explode = None \<and> map_of (s a) sw_description = None \<and>
      map_of (s a) sw_style = None)"

text \<open>The generator whose two parameter converters return what the handouts show in a store.\<close>

definition with_views ::
  "'o generator \<Rightarrow> store \<Rightarrow> ('o \<Rightarrow> handout) \<Rightarrow> ('o \<Rightarrow> handout) \<Rightarrow> 'o generator" where
  "with_views g s query_converter header_converter =
     g\<lparr>query_string_converter := (\<lambda>field. view s (query_converter field)),
       headers_converter := (\<lambda>field. view s (header_converter field))\<rparr>"




section \<open>The loop over the paths\<close>

lemma get_paths_loop_append:
  "get_paths_loop g x dh ds (xs @ ys) pds =
     (case get_paths_loop g x dh ds xs pds of
        Inl e \<Rightarrow> Inl e
      | Inr pds' \<Rightarrow> get_paths_loop g x dh ds ys pds')"
  by (induction xs arbitrary: pds) (auto split: sum.splits)

lemma path_step_skipped:
  "skipped g (snd pm) \<Longrightarrow> path_step g x dh ds pm pds = Inr pds"
  by (simp add: path_step_def split: prod.splits)

lemma generate_succeeds:
  "get_components g x registry = Inr c \<Longrightarrow>
   get_paths g x (paths registry) (default_headers_schema registry)
     (Some (concat (map (get_security_requirements g) (default_authenticators registry)))) = Inr pds \<Longrightarrow>
   \<not> isl (generate g x registry host sort_keys)"
  by (simp add: generate_def Let_def)

text \<open>
  C10. When \<open>include_hidden\<close> is false and every method of a framework path is hidden, the
  path is skipped before its converter tags are looked up and before its parameters are
  verified: the paths section, and whether building it fails, is the same as for the
  registry without that path. So whatever the converter tags of such a path are, and
  whatever they conflict with, \<open>generate\<close> returns a document as soon as the components
  and the other paths can be built.
\<close>

theorem fully_hidden_path_is_skipped:
  assumes "skipped g ms"
  shows "get_paths g x (pre @ (p, ms) # post) dh ds = get_paths g x (pre @ post) dh ds \<and>
         (\<forall>registry c pds host sort_keys.
            paths registry = pre @ (p, ms) # post \<and>
            get_components g x registry = Inr c \<and>
            get_paths g x (pre @ post) (default_headers_schema registry)
              (Some (concat (map (get_security_requirements g) (default_authenticators registry)))) = Inr pds \<longrightarrow>
            \<not> isl (generate g x registry host sort_keys))"
proof -
  have e: "get_paths g x (pre @ (p, ms) # post) dh' ds' = get_paths g x (pre @ post) dh' ds'" for dh' ds'
    using assms
    by (simp add: get_paths_def get_paths_loop_append path_step_skipped split: sum.splits)
  show ?thesis
  proof (intro conjI allI impI)
    show "get_paths g x (pre @ (p, ms) # post) dh ds = get_paths g x (pre @ post) dh ds"
      by (rule e)
  next
    fix registry :: "'a handler_registry" and c pds host sort_keys
    assume a: "paths registry = pre @ (p, ms) # post \<and>
            get_components g x registry = Inr c \<and>
            get_paths g x (pre @ post) (default_headers_schema registry)
              (Some (concat (map (get_security_requirements g) (default_authenticators registry)))) = Inr pds"
    then have "get_paths g x (paths registry) (default_headers_schema registry)
              (Some (concat (map (get_security_requirements g) (default_authenticators registry)))) = Inr pds"
      by (simp add: e)
    with a show "\<not> isl (generate g x registry host sort_keys)"
      using generate_succeeds by blast
  qed
qed

theorem fully_hidden_path_is_skipped_witness:
  "skipped example_generator [(''GET'', example_endpoint\<lparr>hidden := True\<rparr>)] \<and>
   flask_converters_to_swagger_types example_generator ''colour'' = None \<and>
   get_paths example_generator example_collaborators
     [(''/widgets/<int:id>'', [(''GET'', example_endpoint)]),
      (''/widgets/<colour:id>'', [(''GET'', example_endpoint\<lparr>hidden := True\<rparr>)])] None (Some [])
   = get_paths example_generator example_collaborators
     [(''/widgets/<int:id>'', [(''GET'', example_endpoint)])] None (Some [])"
proof -
  have h: "skipped example_generator [(''GET'', example_endpoint\<lparr>hidden := True\<rparr>)]"
    by (simp add: skipped_def example_generator_def)
  have t: "flask_converters_to_swagger_types example_generator ''colour'' = None"
    by (simp add: example_generator_def)
  from fully_hidden_path_is_skipped [OF h, of example_collaborators
      "[(''/widgets/<int:id>'', [(''GET'', example_endpoint)])]" "''/widgets/<colour:id>''" "[]" None "Some []"]
  have "get_paths example_generator example_collaborators
     ([(''/widgets/<int:id>'', [(''GET'', example_endpoint)])] @
      (''/widgets/<colour:id>'', [(''GET'', example_endpoint\<lparr>hidden := True\<rparr>)]) # []) None (Some [])
   = get_paths example_generator example_collaborators
     ([(''/widgets/<int:id>'', [(''GET'', example_endpoint)])] @ []) None (Some [])"
    by (rule conjunct1)
  with h t show ?thesis by simp
qed

section \<open>Hidden endpoints\<close>

lemma parts_ignore_hidden:
  "responses_of g x (d\<lparr>hidden := b\<rparr>) = responses_of g x d"
  "parameters_of g x dh (d\<lparr>hidden := b\<rparr>) = parameters_of g x dh d"
  "request_body_of x (d\<lparr>hidden := b\<rparr>) = request_body_of x d"
  "security_of g ds (d\<lparr>hidden := b\<rparr>) = security_of g ds d"
  by (simp_all add: responses_of_def parameters_of_def request_body_of_def security_of_def)

lemma operation_ignores_hidden:
  "operation g x dh ds (d\<lparr>hidden := b\<rparr>) = operation g x dh ds d"
  by (simp add: operation_def operation_from_def parts_ignore_hidden cong: option.case_cong)

lemma fold_method_step_filter:
  "\<not> include_hidden g \<Longrightarrow>
   fold (method_step g x dh ds) (filter (\<lambda>md. \<not> hidden (snd md)) ms) pd =
   fold (method_step g x dh ds) ms pd"
  by (induction ms arbitrary: pd) (auto simp: method_step_def)

lemma skipped_filter:
  "\<not> include_hidden g \<Longrightarrow> skipped g (filter (\<lambda>md. \<not> hidden (snd md)) ms) = skipped g ms"
  by (induction ms) (auto simp: skipped_def)

lemma path_step_drop_hidden:
  "\<not> include_hidden g \<Longrightarrow>
   path_step g x dh ds (fst pm, filter (\<lambda>md. \<not> hidden (snd md)) (snd pm)) pds = path_step g x dh ds pm pds"
  by (auto simp: path_step_def skipped_filter fold_method_step_filter split: prod.splits sum.splits)

lemma get_paths_loop_drop_hidden:
  "\<not> include_hidden g \<Longrightarrow>
   get_paths_loop g x dh ds (drop_hidden ps) pds = get_paths_loop g x dh ds ps pds"
  by (induction ps arbitrary: pds) (auto simp: drop_hidden_def path_step_drop_hidden split: sum.splits)

lemma fold_method_step_unhide:
  "include_hidden g \<Longrightarrow>
   fold (method_step g x dh ds) (map (\<lambda>md. (fst md, (snd md)\<lparr>hidden := False\<rparr>)) ms) pd =
   fold (method_step g x dh ds) ms pd"
  by (induction ms arbitrary: pd) (auto simp: method_step_def operation_ignores_hidden)

lemma path_step_unhide:
  "include_hidden g \<Longrightarrow>
   path_step g x dh ds (fst pm, map (\<lambda>md. (fst md, (snd md)\<lparr>hidden := False\<rparr>)) (snd pm)) pds = path_step g x dh ds pm pds"
  by (auto simp: path_step_def skipped_def fold_method_step_unhide split: prod.splits sum.splits)

lemma get_paths_loop_unhide:
  "include_hidden g \<Longrightarrow>
   get_paths_loop g x dh ds (unhide ps) pds = get_paths_loop g x dh ds ps pds"
  by (induction ps arbitrary: pds) (auto simp: unhide_def path_step_unhide split: sum.splits)

section \<open>Keys once written stay\<close>

lemma fold_method_step_keeps:
  "map_of pd k \<noteq> None \<Longrightarrow> map_of (fold (method_step g x dh ds) ms pd) k \<noteq> None"
  by (induction ms arbitrary: pd) (auto simp: method_step_def update_conv')

lemma fold_method_step_writes:
  "md \<in> set ms \<Longrightarrow> include_hidden g \<or> \<not> hidden (snd md) \<Longrightarrow>
   map_of (fold (method_step g x dh ds) ms pd) (lower (fst md)) \<noteq> None"
proof (induction ms arbitrary: pd)
  case Nil
  then show ?case by simp
next
  case (Cons a ms)
  show ?case
  proof (cases "md = a")
    case True
    have "map_of (method_step g x dh ds a pd) (lower (fst md)) \<noteq> None"
      using True Cons.prems(2) by (auto simp: method_step_def update_conv')
    then show ?thesis using fold_method_step_keeps by simp
  next
    case False
    with Cons show ?thesis by simp
  qed
qed

lemma set_path_params_keeps:
  "set_path_params g x args pd = Inr pd' \<Longrightarrow> map_of pd k \<noteq> None \<Longrightarrow> map_of pd' k \<noteq> None"
  by (auto simp: set_path_params_def update_conv' split: if_splits sum.splits option.splits)

lemma set_path_params_writes:
  "set_path_params g x args pd = Inr pd' \<Longrightarrow> args \<noteq> [] \<Longrightarrow> map_of pd' sw_parameters \<noteq> None"
  by (auto simp: set_path_params_def update_conv' split: if_splits sum.splits option.splits)

lemma path_step_keeps:
  assumes "path_step g x dh ds pm pds = Inr pds'" "entry pds sp k \<noteq> None"
  shows "entry pds' sp k \<noteq> None"
proof (cases "skipped g (snd pm)")
  case True
  with assms show ?thesis by (simp add: path_step_def split: prod.splits)
next
  case False
  obtain sp' args where f: "format_path_for_swagger x (fst pm) = (sp', args)"
    by (cases "format_path_for_swagger x (fst pm)")
  define pd0 where "pd0 = (case map_of pds sp' of Some pd \<Rightarrow> pd | None \<Rightarrow> [])"
  from assms(1) False f obtain pd1 where
    s: "set_path_params g x args pd0 = Inr pd1" and
    r: "pds' = AList.update sp' (fold (method_step g x dh ds) (snd pm) pd1) pds"
    by (auto simp: path_step_def pd0_def split: sum.splits)
  show ?thesis
  proof (cases "sp = sp'")
    case False
    with assms(2) r show ?thesis by (simp add: entry_def update_conv')
  next
    case True
    with assms(2) have "map_of pd0 k \<noteq> None"
      by (auto simp: entry_def pd0_def split: option.splits)
    from set_path_params_keeps [OF s this]
    have "map_of (fold (method_step g x dh ds) (snd pm) pd1) k \<noteq> None"
      by (rule fold_method_step_keeps)
    with r True show ?thesis by (simp add: entry_def update_conv')
  qed
qed

lemma path_step_writes_endpoint:
  assumes "path_step g x dh ds pm pds = Inr pds'" "md \<in> set (snd pm)"
    "include_hidden g \<or> \<not> hidden (snd md)"
  shows "entry pds' (fst (format_path_for_swagger x (fst pm))) (lower (fst md)) \<noteq> None"
proof -
  from assms(2,3) have ns: "\<not> skipped g (snd pm)"
    by (auto simp: skipped_def list_all_iff)
  obtain sp' args where f: "format_path_for_swagger x (fst pm) = (sp', args)"
    by (cases "format_path_for_swagger x (fst pm)")
  from assms(1) ns f obtain pd1 where
    r: "pds' = AList.update sp' (fold (method_step g x dh ds) (snd pm) pd1) pds"
    by (auto simp: path_step_def split: sum.splits)
  from fold_method_step_writes [OF assms(2,3)] r f show ?thesis
    by (simp add: entry_def update_conv')
qed

lemma path_step_writes_parameters:
  assumes "path_step g x dh ds pm pds = Inr pds'" "\<not> skipped g (snd pm)"
    "snd (format_path_for_swagger x (fst pm)) \<noteq> []"
  shows "entry pds' (fst (format_path_for_swagger x (fst pm))) sw_parameters \<noteq> None"
proof -
  obtain sp' args where f: "format_path_for_swagger x (fst pm) = (sp', args)"
    by (cases "format_path_for_swagger x (fst pm)")
  define pd0 where "pd0 = (case map_of pds sp' of Some pd \<Rightarrow> pd | None \<Rightarrow> [])"
  from assms(1,2) f obtain pd1 where
    s: "set_path_params g x args pd0 = Inr pd1" and
    r: "pds' = AList.update sp' (fold (method_step g x dh ds) (snd pm) pd1) pds"
    by (auto simp: path_step_def pd0_def split: sum.splits)
  from assms(3) f have "args \<noteq> []" by simp
  from set_path_params_writes [OF s this]
  have "map_of (fold (method_step g x dh ds) (snd pm) pd1) sw_parameters \<noteq> None"
    by (rule fold_method_step_keeps)
  with r f show ?thesis by (simp add: entry_def update_conv')
qed

lemma get_paths_loop_keeps:
  "get_paths_loop g x dh ds ps pds = Inr pds' \<Longrightarrow> entry pds sp k \<noteq> None \<Longrightarrow> entry pds' sp k \<noteq> None"
proof (induction ps arbitrary: pds)
  case Nil
  then show ?case by simp
next
  case (Cons pm ps)
  from Cons.prems(1) obtain pds1 where
    st: "path_step g x dh ds pm pds = Inr pds1" and
    lp: "get_paths_loop g x dh ds ps pds1 = Inr pds'"
    by (auto split: sum.splits)
  from Cons.IH [OF lp path_step_keeps [OF st Cons.prems(2)]] show ?case .
qed

lemma get_paths_loop_writes_endpoint:
  "get_paths_loop g x dh ds ps pds = Inr pds' \<Longrightarrow> pm \<in> set ps \<Longrightarrow> md \<in> set (snd pm) \<Longrightarrow>
   include_hidden g \<or> \<not> hidden (snd md) \<Longrightarrow>
   entry pds' (fst (format_path_for_swagger x (fst pm))) (lower (fst md)) \<noteq> None"
proof (induction ps arbitrary: pds)
  case Nil
  then show ?case by simp
next
  case (Cons a ps)
  from Cons.prems(1) obtain pds1 where
    st: "path_step g x dh ds a pds = Inr pds1" and
    lp: "get_paths_loop g x dh ds ps pds1 = Inr pds'"
    by (auto split: sum.splits)
  show ?case
  proof (cases "pm = a")
    case True
    from path_step_writes_endpoint [OF st] True Cons.prems(3,4)
    have "entry pds1 (fst (format_path_for_swagger x (fst pm))) (lower (fst md)) \<noteq> None" by simp
    from get_paths_loop_keeps [OF lp this] show ?thesis .
  next
    case False
    with Cons.prems(2) have "pm \<in> set ps" by simp
    from Cons.IH [OF lp this Cons.prems(3,4)] show ?thesis .
  qed
qed

lemma get_paths_loop_writes_parameters:
  "get_paths_loop g x dh ds ps pds = Inr pds' \<Longrightarrow> pm \<in> set ps \<Longrightarrow> \<not> skipped g (snd pm) \<Longrightarrow>
   snd (format_path_for_swagger x (fst pm)) \<noteq> [] \<Longrightarrow>
   entry pds' (fst (format_path_for_swagger x (fst pm))) sw_parameters \<noteq> None"
proof (induction ps arbitrary: pds)
  case Nil
  then show ?case by simp
next
  case (Cons a ps)
  from Cons.prems(1) obtain pds1 where
    st: "path_step g x dh ds a pds = Inr pds1" and
    lp: "get_paths_loop g x dh ds ps pds1 = Inr pds'"
    by (auto split: sum.splits)
  show ?case
  proof (cases "pm = a")
    case True
    from path_step_writes_parameters [OF st] True Cons.prems(3,4)
    have "entry pds1 (fst (format_path_for_swagger x (fst pm))) sw_parameters \<noteq> None" by simp
    from get_paths_loop_keeps [OF lp this] show ?thesis .
  next
    case False
    with Cons.prems(2) have "pm \<in> set ps" by simp
    from Cons.IH [OF lp this Cons.prems(3,4)] show ?thesis .
  qed
qed





section \<open>Where the entries of the paths section come from\<close>

lemma map_of_assign:
  "map_of (assign k vo d) k' =
     (if k' = k then (case vo of Some v \<Rightarrow> Some v | None \<Rightarrow> map_of d k) else map_of d k')"
  by (simp add: assign_def update_conv' split: option.splits)

lemma fold_method_step_origin:
  "map_of (fold (method_step g x dh ds) ms pd) k = Some v \<Longrightarrow>
   map_of pd k = Some v \<or>
   (\<exists>md \<in> set ms. (include_hidden g \<or> \<not> hidden (snd md)) \<and> lower (fst md) = k \<and>
       v = JDict (operation g x dh ds (snd md)))"
proof (induction ms arbitrary: pd)
  case Nil
  then show ?case by simp
next
  case (Cons a ms)
  from Cons.prems have "map_of (fold (method_step g x dh ds) ms (method_step g x dh ds a pd)) k = Some v"
    by simp
  from Cons.IH [OF this] show ?case
    by (auto simp: method_step_def update_conv' split: if_splits)
qed

lemma set_path_params_origin:
  "set_path_params g x args pd = Inr pd' \<Longrightarrow> map_of pd' k = Some v \<Longrightarrow>
   map_of pd k = Some v \<or>
   (k = sw_parameters \<and> args \<noteq> [] \<and> map_sum id JList (path_params_of g args) = Inr v)"
  by (auto simp: set_path_params_def update_conv' split: if_splits sum.splits option.splits)

lemma path_step_origin:
  assumes "path_step g x dh ds pm pds = Inr pds'" "entry pds' sp k = Some v"
  shows "entry pds sp k = Some v \<or>
         (k = sw_parameters \<and> from_path_args g x [pm] sp v) \<or>
         (\<exists>d. emitted_endpoint g x [pm] sp k d \<and> v = JDict (operation g x dh ds d))"
proof (cases "skipped g (snd pm)")
  case True
  with assms show ?thesis by (simp add: path_step_def split: prod.splits)
next
  case False
  obtain sp' args where f: "format_path_for_swagger x (fst pm) = (sp', args)"
    by (cases "format_path_for_swagger x (fst pm)")
  define pd0 where "pd0 = (case map_of pds sp' of Some pd \<Rightarrow> pd | None \<Rightarrow> [])"
  from assms(1) False f obtain pd1 where
    s: "set_path_params g x args pd0 = Inr pd1" and
    r: "pds' = AList.update sp' (fold (method_step g x dh ds) (snd pm) pd1) pds"
    by (auto simp: path_step_def pd0_def split: sum.splits)
  show ?thesis
  proof (cases "sp = sp'")
    case False
    with assms(2) r show ?thesis by (simp add: entry_def update_conv')
  next
    case True
    with assms(2) r have "map_of (fold (method_step g x dh ds) (snd pm) pd1) k = Some v"
      by (simp add: entry_def update_conv')
    from fold_method_step_origin [OF this] show ?thesis
    proof
      assume "map_of pd1 k = Some v"
      from set_path_params_origin [OF s this] show ?thesis
      proof
        assume "map_of pd0 k = Some v"
        then have "entry pds sp k = Some v"
          using True by (auto simp: pd0_def entry_def split: option.splits)
        then show ?thesis by simp
      next
        assume "k = sw_parameters \<and> args \<noteq> [] \<and> map_sum id JList (path_params_of g args) = Inr v"
        then show ?thesis using False f True by (simp add: from_path_args_def)
      qed
    next
      assume "\<exists>md \<in> set (snd pm). (include_hidden g \<or> \<not> hidden (snd md)) \<and> lower (fst md) = k \<and>
                 v = JDict (operation g x dh ds (snd md))"
      then obtain md where "md \<in> set (snd pm)" "include_hidden g \<or> \<not> hidden (snd md)"
         "lower (fst md) = k" "v = JDict (operation g x dh ds (snd md))" by blast
      then have "emitted_endpoint g x [pm] sp k (snd md) \<and> v = JDict (operation g x dh ds (snd md))"
        using f True by (auto simp: emitted_endpoint_def list_ex_iff)
      then show ?thesis by blast
    qed
  qed
qed

lemma from_path_args_mono:
  "from_path_args g x ps sp v \<Longrightarrow> set ps \<subseteq> set ps' \<Longrightarrow> from_path_args g x ps' sp v"
  by (auto simp: from_path_args_def list_ex_iff)

lemma emitted_endpoint_mono:
  "emitted_endpoint g x ps sp k d \<Longrightarrow> set ps \<subseteq> set ps' \<Longrightarrow> emitted_endpoint g x ps' sp k d"
  by (auto simp: emitted_endpoint_def list_ex_iff)

lemma get_paths_loop_origin:
  "get_paths_loop g x dh ds ps pds = Inr pds' \<Longrightarrow> entry pds' sp k = Some v \<Longrightarrow>
   entry pds sp k = Some v \<or>
   (k = sw_parameters \<and> from_path_args g x ps sp v) \<or>
   (\<exists>d. emitted_endpoint g x ps sp k d \<and> v = JDict (operation g x dh ds d))"
proof (induction ps arbitrary: pds)
  case Nil
  then show ?case by simp
next
  case (Cons pm ps)
  from Cons.prems(1) obtain pds1 where
    st: "path_step g x dh ds pm pds = Inr pds1" and
    lp: "get_paths_loop g x dh ds ps pds1 = Inr pds'"
    by (auto split: sum.splits)
  from Cons.IH [OF lp Cons.prems(2)]
  consider "entry pds1 sp k = Some v"
    | "k = sw_parameters \<and> from_path_args g x ps sp v"
    | "\<exists>d. emitted_endpoint g x ps sp k d \<and> v = JDict (operation g x dh ds d)"
    by blast
  then show ?case
  proof cases
    case 1
    have sub: "set [pm] \<subseteq> set (pm # ps)" by simp
    from path_step_origin [OF st 1] show ?thesis
      using from_path_args_mono [OF _ sub] emitted_endpoint_mono [OF _ sub] by blast
  next
    case 2
    then show ?thesis using from_path_args_mono [OF _ set_subset_Cons] by blast
  next
    case 3
    then show ?thesis using emitted_endpoint_mono [OF _ set_subset_Cons] by blast
  qed
qed

lemma get_paths_origin:
  "get_paths g x ps dh ds = Inr pds \<Longrightarrow> entry pds sp k = Some v \<Longrightarrow>
   (k = sw_parameters \<and> from_path_args g x ps sp v) \<or>
   (\<exists>d. emitted_endpoint g x ps sp k d \<and> v = JDict (operation g x dh ds d))"
  using get_paths_loop_origin [of g x dh ds ps "[]" pds sp k v]
  by (simp add: get_paths_def entry_def)

lemma get_paths_operation_origin:
  "get_paths g x ps dh ds = Inr pds \<Longrightarrow> entry pds sp k = Some v \<Longrightarrow> k \<noteq> sw_parameters \<Longrightarrow>
   \<exists>d. emitted_endpoint g x ps sp k d \<and> v = JDict (operation g x dh ds d)"
  using get_paths_origin by blast

lemma get_paths_writes_endpoint:
  "get_paths g x ps dh ds = Inr pds \<Longrightarrow> pm \<in> set ps \<Longrightarrow> md \<in> set (snd pm) \<Longrightarrow>
   include_hidden g \<or> \<not> hidden (snd md) \<Longrightarrow>
   entry pds (fst (format_path_for_swagger x (fst pm))) (lower (fst md)) \<noteq> None"
  unfolding get_paths_def by (rule get_paths_loop_writes_endpoint)

text \<open>
  C6. With \<open>include_hidden\<close> false the paths section is the one of the registry without
  its hidden endpoints, and every operation in it belongs to an endpoint that is not
  hidden. With \<open>include_hidden\<close> true the paths section is the one of the registry with
  no endpoint marked hidden, and the slot of every endpoint is filled.
\<close>

theorem hidden_endpoints:
  "(\<not> include_hidden g \<longrightarrow>
      get_paths g x ps dh ds = get_paths g x (drop_hidden ps) dh ds \<and>
      (\<forall>pds sp k v. get_paths g x ps dh ds = Inr pds \<and> entry pds sp k = Some v \<and> k \<noteq> sw_parameters \<longrightarrow>
         (\<exists>d. emitted_endpoint g x ps sp k d \<and> \<not> hidden d \<and> v = JDict (operation g x dh ds d)))) \<and>
   (include_hidden g \<longrightarrow>
      get_paths g x ps dh ds = get_paths g x (unhide ps) dh ds \<and>
      (\<forall>pds pm md. get_paths g x ps dh ds = Inr pds \<and> pm \<in> set ps \<and> md \<in> set (snd pm) \<longrightarrow>
         entry pds (fst (format_path_for_swagger x (fst pm))) (lower (fst md)) \<noteq> None))"
proof (intro conjI impI allI)
  assume "\<not> include_hidden g"
  then show "get_paths g x ps dh ds = get_paths g x (drop_hidden ps) dh ds"
    by (simp add: get_paths_def get_paths_loop_drop_hidden)
next
  fix pds sp k v
  assume nh: "\<not> include_hidden g"
    and a: "get_paths g x ps dh ds = Inr pds \<and> entry pds sp k = Some v \<and> k \<noteq> sw_parameters"
  then obtain d where d: "emitted_endpoint g x ps sp k d" "v = JDict (operation g x dh ds d)"
    using get_paths_operation_origin by blast
  from d(1) nh have "\<not> hidden d" by (auto simp: emitted_endpoint_def list_ex_iff)
  with d show "\<exists>d. emitted_endpoint g x ps sp k d \<and> \<not> hidden d \<and> v = JDict (operation g x dh ds d)"
    by blast
next
  assume "include_hidden g"
  then show "get_paths g x ps dh ds = get_paths g x (unhide ps) dh ds"
    by (simp add: get_paths_def get_paths_loop_unhide)
next
  fix pds pm md
  assume "include_hidden g"
    and "get_paths g x ps dh ds = Inr pds \<and> pm \<in> set ps \<and> md \<in> set (snd pm)"
  then show "entry pds (fst (format_path_for_swagger x (fst pm))) (lower (fst md)) \<noteq> None"
    using get_paths_writes_endpoint by blast
qed


theorem hidden_endpoints_witness:
  "\<not> include_hidden example_generator \<and>
   get_paths example_generator example_collaborators example_registry_paths None (Some []) =
   get_paths example_generator example_collaborators
     [(''/widgets/<int:id>'', [(''GET'', example_endpoint)])] None (Some []) \<and>
   include_hidden (example_generator\<lparr>include_hidden := True\<rparr>) \<and>
   get_paths (example_generator\<lparr>include_hidden := True\<rparr>) example_collaborators
     example_registry_paths None (Some []) =
   get_paths (example_generator\<lparr>include_hidden := True\<rparr>) example_collaborators
     [(''/widgets/<int:id>'',
       [(''GET'', example_endpoint), (''DELETE'', example_endpoint)])] None (Some [])"
proof -
  have a: "\<not> include_hidden example_generator"
    by (simp add: example_generator_def)
  have b: "include_hidden (example_generator\<lparr>include_hidden := True\<rparr>)"
    by simp
  have c: "drop_hidden example_registry_paths = [(''/widgets/<int:id>'', [(''GET'', example_endpoint)])]"
    by (simp add: drop_hidden_def example_registry_paths_def example_endpoint_def)
  have d: "unhide example_registry_paths =
      [(''/widgets/<int:id>'', [(''GET'', example_endpoint), (''DELETE'', example_endpoint)])]"
    by (simp add: unhide_def example_registry_paths_def example_endpoint_def)
  show ?thesis
    using a b c d
      hidden_endpoints [of example_generator example_collaborators example_registry_paths None "Some []"]
      hidden_endpoints [of "example_generator\<lparr>include_hidden := True\<rparr>" example_collaborators
        example_registry_paths None "Some []"]
    by simp
qed

section \<open>Path parameters\<close>

lemma path_params_of_shape:
  "path_params_of g args = Inr pp \<Longrightarrow>
   list_all2 (\<lambda>a p. \<exists>t. flask_converters_to_swagger_types g (arg_type a) = Some t \<and> p = path_param a t) args pp"
proof (induction args arbitrary: pp)
  case Nil
  then show ?case by simp
next
  case (Cons a args)
  then show ?case by (auto split: option.splits sum.splits)
qed

lemma path_params_of_unknown_tag:
  "a \<in> set args \<Longrightarrow> flask_converters_to_swagger_types g (arg_type a) = None \<Longrightarrow>
   isl (path_params_of g args)"
  by (induction args) (auto split: option.splits sum.splits)

lemma path_step_unknown_tag:
  assumes "\<not> skipped g (snd pm)" "a \<in> set (snd (format_path_for_swagger x (fst pm)))"
    "flask_converters_to_swagger_types g (arg_type a) = None"
  shows "isl (path_step g x dh ds pm pds)"
proof -
  obtain sp args where f: "format_path_for_swagger x (fst pm) = (sp, args)"
    by (cases "format_path_for_swagger x (fst pm)")
  with assms(2) have "a \<in> set args" by simp
  from path_params_of_unknown_tag [OF this assms(3)] obtain e where "path_params_of g args = Inl e"
    by (cases "path_params_of g args") auto
  moreover from \<open>a \<in> set args\<close> have "args \<noteq> []" by auto
  ultimately show ?thesis using assms(1) f
    by (simp add: path_step_def set_path_params_def)
qed

lemma get_paths_loop_unknown_tag:
  "pm \<in> set ps \<Longrightarrow> \<not> skipped g (snd pm) \<Longrightarrow> a \<in> set (snd (format_path_for_swagger x (fst pm))) \<Longrightarrow>
   flask_converters_to_swagger_types g (arg_type a) = None \<Longrightarrow>
   isl (get_paths_loop g x dh ds ps pds)"
proof (induction ps arbitrary: pds)
  case Nil
  then show ?case by simp
next
  case (Cons q ps)
  show ?case
  proof (cases "path_step g x dh ds q pds")
    case (Inl e)
    then show ?thesis by simp
  next
    case (Inr pds1)
    have "pm \<noteq> q"
    proof
      assume "pm = q"
      with path_step_unknown_tag [OF Cons.prems(2,3,4), of dh ds pds] Inr show False by simp
    qed
    with Cons.prems(1) have "pm \<in> set ps" by simp
    from Cons.IH [OF this Cons.prems(2,3,4)] Inr show ?thesis by simp
  qed
qed

text \<open>
  C7, as amended. Let no method of the registry have the lower-case name \<open>parameters\<close>.
  In a paths section that was built, the path-level parameter list of a spec path
  comes from the placeholders of a registered, not skipped template: one parameter per
  placeholder, with \<open>required\<close> true, \<open>in\<close> \<open>path\<close>, \<open>style\<close> \<open>simple\<close>, and as schema type
  the table's entry for the placeholder's converter tag; every such template with
  placeholders has a parameter list; and a placeholder of a template that is not skipped
  whose tag is not in the table makes the whole generation fail.
\<close>

theorem path_parameters:
  assumes "\<forall>pm \<in> set ps. \<forall>md \<in> set (snd pm). lower (fst md) \<noteq> sw_parameters"
  shows
    "(\<forall>pds sp v. get_paths g x ps dh ds = Inr pds \<and> entry pds sp sw_parameters = Some v \<longrightarrow>
        (\<exists>pm \<in> set ps. \<exists>pp. \<not> skipped g (snd pm) \<and> fst (format_path_for_swagger x (fst pm)) = sp \<and>
           v = JList pp \<and>
           list_all2
             (\<lambda>a p. \<exists>t. flask_converters_to_swagger_types g (arg_type a) = Some t \<and>
                p = JDict [(sw_name, JStr (arg_name a)), (sw_required, JBool True),
                           (sw_in, JStr sw_path), (sw_style, JStr sw_simple),
                           (sw_schema, JDict [(sw_type, JStr t)])])
             (snd (format_path_for_swagger x (fst pm))) pp)) \<and>
     (\<forall>pds pm. get_paths g x ps dh ds = Inr pds \<and> pm \<in> set ps \<and> \<not> skipped g (snd pm) \<and>
        snd (format_path_for_swagger x (fst pm)) \<noteq> [] \<longrightarrow>
        entry pds (fst (format_path_for_swagger x (fst pm))) sw_parameters \<noteq> None) \<and>
     (\<forall>pm a. pm \<in> set ps \<and> \<not> skipped g (snd pm) \<and>
        a \<in> set (snd (format_path_for_swagger x (fst pm))) \<and>
        flask_converters_to_swagger_types g (arg_type a) = None \<longrightarrow>
        isl (get_paths g x ps dh ds))"
proof (intro conjI allI impI)
  fix pds sp v
  assume a: "get_paths g x ps dh ds = Inr pds \<and> entry pds sp sw_parameters = Some v"
  have "\<not> (\<exists>d. emitted_endpoint g x ps sp sw_parameters d \<and> v = JDict (operation g x dh ds d))"
    using assms by (auto simp: emitted_endpoint_def list_ex_iff)
  with a get_paths_origin [of g x ps dh ds pds sp sw_parameters v]
  have "from_path_args g x ps sp v" by blast
  then obtain pm where pm: "pm \<in> set ps" "\<not> skipped g (snd pm)"
    "fst (format_path_for_swagger x (fst pm)) = sp"
    "map_sum id JList (path_params_of g (snd (format_path_for_swagger x (fst pm)))) = Inr v"
    by (auto simp: from_path_args_def list_ex_iff)
  from pm(4) obtain pp where pp: "path_params_of g (snd (format_path_for_swagger x (fst pm))) = Inr pp"
    "v = JList pp"
    by (cases "path_params_of g (snd (format_path_for_swagger x (fst pm)))") auto
  from path_params_of_shape [OF pp(1)] pm pp(2)
  show "\<exists>pm \<in> set ps. \<exists>pp. \<not> skipped g (snd pm) \<and> fst (format_path_for_swagger x (fst pm)) = sp \<and>
           v = JList pp \<and>
           list_all2
             (\<lambda>a p. \<exists>t. flask_converters_to_swagger_types g (arg_type a) = Some t \<and>
                p = JDict [(sw_name, JStr (arg_name a)), (sw_required, JBool True),
                           (sw_in, JStr sw_path), (sw_style, JStr sw_simple),
                           (sw_schema, JDict [(sw_type, JStr t)])])
             (snd (format_path_for_swagger x (fst pm))) pp"
    unfolding path_param_def by blast
next
  fix pds pm
  assume "get_paths g x ps dh ds = Inr pds \<and> pm \<in> set ps \<and> \<not> skipped g (snd pm) \<and>
        snd (format_path_for_swagger x (fst pm)) \<noteq> []"
  then show "entry pds (fst (format_path_for_swagger x (fst pm))) sw_parameters \<noteq> None"
    unfolding get_paths_def using get_paths_loop_writes_parameters by blast
next
  fix pm a
  assume "pm \<in> set ps \<and> \<not> skipped g (snd pm) \<and>
        a \<in> set (snd (format_path_for_swagger x (fst pm))) \<and>
        flask_converters_to_swagger_types g (arg_type a) = None"
  then show "isl (get_paths g x ps dh ds)"
    unfolding get_paths_def using get_paths_loop_unknown_tag by blast
qed

theorem path_parameters_witness:
  "lower ''GET'' \<noteq> sw_parameters \<and>
   entry [(''/widgets/{id}'', [(sw_parameters, JList [path_param \<lparr>arg_name = ''id'', arg_type = ''int''\<rparr> ''integer'']),
      (''get'', JDict (operation example_generator example_collaborators None (Some []) example_endpoint))])]
     ''/widgets/{id}'' sw_parameters \<noteq> None \<and>
   isl (get_paths example_generator example_collaborators
          [(''/widgets/<colour:id>'', [(''GET'', example_endpoint)])] None (Some []))"
proof -
  have l: "lower ''GET'' \<noteq> sw_parameters"
    by (simp add: lower_def lower_char_def)
  have h1: "\<forall>pm \<in> set [(''/widgets/<int:id>'', [(''GET'', example_endpoint)])].
             \<forall>md \<in> set (snd pm). lower (fst md) \<noteq> sw_parameters"
    using l by simp
  have h2: "\<forall>pm \<in> set [(''/widgets/<colour:id>'', [(''GET'', example_endpoint)])].
             \<forall>md \<in> set (snd pm). lower (fst md) \<noteq> sw_parameters"
    using l by simp
  have r: "get_paths example_generator example_collaborators
             [(''/widgets/<int:id>'', [(''GET'', example_endpoint)])] None (Some []) =
           Inr [(''/widgets/{id}'', [(sw_parameters, JList [path_param \<lparr>arg_name = ''id'', arg_type = ''int''\<rparr> ''integer'']),
      (''get'', JDict (operation example_generator example_collaborators None (Some []) example_endpoint))])]"
    by code_simp
  have ns: "\<not> skipped example_generator [(''GET'', example_endpoint)]"
    by (simp add: skipped_def example_endpoint_def)
  have f1: "format_path_for_swagger example_collaborators ''/widgets/<int:id>'' =
            (''/widgets/{id}'', [\<lparr>arg_name = ''id'', arg_type = ''int''\<rparr>])"
    by code_simp
  have f2: "format_path_for_swagger example_collaborators ''/widgets/<colour:id>'' =
            (''/widgets/{id}'', [\<lparr>arg_name = ''id'', arg_type = ''colour''\<rparr>])"
    by code_simp
  have t: "flask_converters_to_swagger_types example_generator ''colour'' = None"
    by (simp add: example_generator_def)
  from path_parameters [OF h1, of example_generator example_collaborators None "Some []"] r ns f1
  have p2: "entry [(''/widgets/{id}'', [(sw_parameters, JList [path_param \<lparr>arg_name = ''id'', arg_type = ''int''\<rparr> ''integer'']),
      (''get'', JDict (operation example_generator example_collaborators None (Some []) example_endpoint))])]
     ''/widgets/{id}'' sw_parameters \<noteq> None"
    by fastforce
  from path_parameters [OF h2, of example_generator example_collaborators None "Some []"] ns f2 t
  have p3: "isl (get_paths example_generator example_collaborators
          [(''/widgets/<colour:id>'', [(''GET'', example_endpoint)])] None (Some []))"
    by fastforce
  from l p2 p3 show ?thesis by blast
qed

text \<open>
  C7, as stated, fails: the path item keeps its parameter list and its operations in one
  dict, under \<open>parameters\<close> and under the lower-case method names. The visible template
  \<open>/w/<int:id>\<close> has the typed placeholder \<open>id\<close>, whose tag is in the table, and the
  method \<open>PARAMETERS\<close>: the operation of that method replaces the parameter list, and no
  path parameter is emitted.
\<close>

theorem parameters_method_counterexample:
  "format_path_for_swagger example_collaborators ''/w/<int:id>'' =
     (''/w/{id}'', [\<lparr>arg_name = ''id'', arg_type = ''int''\<rparr>]) \<and>
   flask_converters_to_swagger_types example_generator ''int'' = Some ''integer'' \<and>
   hidden example_endpoint = False \<and>
   get_paths example_generator example_collaborators
     [(''/w/<int:id>'', [(''PARAMETERS'', example_endpoint)])] None (Some []) =
   Inr [(''/w/{id}'',
         [(sw_parameters,
           JDict
             [(sw_operation_id, JStr ''get_widget''),
              (sw_responses,
               JDict
                 [(sw_default,
                   JDict
                     [(sw_description, JStr ''Error''),
                      (sw_content,
                       JDict [(application_json,
                               JDict [(sw_schema,
                                       JDict [(''$ref'', JStr ''#/components/schemas/Error'')])])])])])])])]"
  by code_simp

section \<open>Decimal rendering\<close>

declare str_nat.simps [simp del]

lemma digit_inj:
  "m < 10 \<Longrightarrow> n < 10 \<Longrightarrow> ''0123456789'' ! m = ''0123456789'' ! n \<Longrightarrow> m = n"
proof -
  assume "m < 10" "n < 10" "''0123456789'' ! m = ''0123456789'' ! n"
  moreover have "distinct ''0123456789''" by simp
  ultimately show ?thesis by (simp add: nth_eq_iff_index_eq)
qed

lemma digit_in_digits: "n < 10 \<Longrightarrow> ''0123456789'' ! n \<in> set ''0123456789''"
  by (rule nth_mem) simp

lemma str_nat_nonempty: "str_nat n \<noteq> []"
  by (subst str_nat.simps) simp

lemma str_nat_digits: "set (str_nat n) \<subseteq> set ''0123456789''"
proof (induction n rule: str_nat.induct)
  case (1 n)
  show ?case
  proof (cases "n < 10")
    case True
    then show ?thesis using digit_in_digits [OF True] by (subst str_nat.simps) simp
  next
    case False
    have "n mod 10 < 10" by simp
    from digit_in_digits [OF this] "1" [OF False] False show ?thesis
      by (subst str_nat.simps) simp
  qed
qed

lemma str_nat_inj: "str_nat m = str_nat n \<Longrightarrow> m = n"
proof (induction m arbitrary: n rule: str_nat.induct)
  case (1 m)
  show ?case
  proof (cases "m < 10")
    case m: True
    show ?thesis
    proof (cases "n < 10")
      case True
      from "1.prems" m True have "''0123456789'' ! m = ''0123456789'' ! n"
        by (simp add: str_nat.simps [of m] str_nat.simps [of n])
      from digit_inj [OF m True this] show ?thesis .
    next
      case False
      from "1.prems" m False have "str_nat (n div 10) = []"
        by (simp add: str_nat.simps [of m] str_nat.simps [of n])
      with str_nat_nonempty show ?thesis by blast
    qed
  next
    case m: False
    show ?thesis
    proof (cases "n < 10")
      case True
      from "1.prems" m True have "str_nat (m div 10) = []"
        by (simp add: str_nat.simps [of m] str_nat.simps [of n])
      with str_nat_nonempty show ?thesis by blast
    next
      case False
      from "1.prems" m False have e: "str_nat (m div 10) = str_nat (n div 10)"
        and d: "''0123456789'' ! (m mod 10) = ''0123456789'' ! (n mod 10)"
        by (simp_all add: str_nat.simps [of m] str_nat.simps [of n])
      from "1.IH" [OF m e] have "m div 10 = n div 10" .
      moreover from digit_inj [OF _ _ d] have "m mod 10 = n mod 10" by simp
      ultimately show ?thesis by (metis div_mult_mod_eq)
    qed
  qed
qed

lemma str_int_inj: "str_int i = str_int j \<Longrightarrow> i = j"
proof -
  assume a: "str_int i = str_int j"
  have nd: "\<And>n. hd (str_nat n) \<noteq> CHR ''-''"
  proof -
    fix n
    have "hd (str_nat n) \<in> set (str_nat n)" using str_nat_nonempty by simp
    with str_nat_digits [of n] show "hd (str_nat n) \<noteq> CHR ''-''" by auto
  qed
  show ?thesis
  proof (cases "i < 0")
    case i: True
    show ?thesis
    proof (cases "j < 0")
      case True
      with a i have "str_nat (nat (- i)) = str_nat (nat (- j))" by (simp add: str_int_def)
      from str_nat_inj [OF this] i True show ?thesis by simp
    next
      case False
      with a i have "hd (str_nat (nat j)) = CHR ''-''" by (simp add: str_int_def) (metis list.sel(1))
      with nd show ?thesis by blast
    qed
  next
    case i: False
    show ?thesis
    proof (cases "j < 0")
      case True
      with a i have "hd (str_nat (nat i)) = CHR ''-''" by (simp add: str_int_def)
      with nd show ?thesis by blast
    next
      case False
      with a i have "str_nat (nat i) = str_nat (nat j)" by (simp add: str_int_def)
      from str_nat_inj [OF this] i False show ?thesis by simp
    qed
  qed
qed

lemma str_int_not_default: "str_int i \<noteq> sw_default"
proof
  assume a: "str_int i = sw_default"
  show False
  proof (cases "i < 0")
    case True
    with a show ?thesis by (simp add: str_int_def)
  next
    case False
    with a have "CHR ''d'' \<in> set (str_nat (nat i))" by (simp add: str_int_def)
    with str_nat_digits [of "nat i"] show ?thesis by auto
  qed
qed

section \<open>Responses\<close>

lemma fold_response_step_other:
  "k \<notin> (\<lambda>item. str_int (fst item)) ` set rbs \<Longrightarrow>
   map_of (fold (response_step x) rbs r) k = map_of r k"
  by (induction rbs arbitrary: r) (auto simp: response_step_def update_conv')

lemma fold_response_step_declared:
  "distinct (map fst rbs) \<Longrightarrow> (c, s) \<in> set rbs \<Longrightarrow>
   map_of (fold (response_step x) rbs r) (str_int c) = Some (response_entry x s)"
proof (induction rbs arbitrary: r)
  case Nil
  then show ?case by simp
next
  case (Cons a rbs)
  show ?case
  proof (cases "fst a = c")
    case True
    with Cons.prems(1) have n: "c \<notin> fst ` set rbs" by auto
    with Cons.prems(2) have "(c, s) = a" by force
    from n have "str_int c \<notin> (\<lambda>item. str_int (fst item)) ` set rbs"
      using str_int_inj by force
    from fold_response_step_other [OF this]
    have "map_of (fold (response_step x) rbs (response_step x a r)) (str_int c) =
          map_of (response_step x a r) (str_int c)" .
    also from \<open>(c, s) = a\<close> have "\<dots> = Some (response_entry x s)"
      by (auto simp: response_step_def update_conv' response_entry_def)
    finally show ?thesis by simp
  next
    case False
    with Cons.prems(2) have "(c, s) \<in> set rbs" by auto
    moreover from Cons.prems(1) have "distinct (map fst rbs)" by simp
    ultimately show ?thesis using Cons.IH by simp
  qed
qed

lemma responses_of_default:
  "map_of (responses_of g x d) sw_default =
   Some (JDict (get_response_definition x (default_response_schema g)))"
proof -
  have n: "sw_default \<notin> (\<lambda>item. str_int (fst item)) ` set rbs" for rbs :: "(int \<times> 'a option) list"
    using str_int_not_default by fastforce
  show ?thesis
    by (simp add: responses_of_def Let_def fold_response_step_other [OF n] split: option.splits)
qed

lemma responses_of_declared:
  "response_body_schema d = Some rbs \<Longrightarrow> distinct (map fst rbs) \<Longrightarrow> (c, s) \<in> set rbs \<Longrightarrow>
   map_of (responses_of g x d) (str_int c) = Some (response_entry x s)"
  by (simp add: responses_of_def Let_def fold_response_step_declared)

lemma responses_of_undeclared:
  "(case response_body_schema d of None \<Rightarrow> True | Some rbs \<Rightarrow> c \<notin> fst ` set rbs) \<Longrightarrow>
   map_of (responses_of g x d) (str_int c) = None"
proof (cases "response_body_schema d")
  case None
  then show ?thesis using str_int_not_default [of c] by (simp add: responses_of_def Let_def)
next
  case (Some rbs)
  assume "case response_body_schema d of None \<Rightarrow> True | Some rbs \<Rightarrow> c \<notin> fst ` set rbs"
  with Some have "c \<notin> fst ` set rbs" by simp
  then have "str_int c \<notin> (\<lambda>item. str_int (fst item)) ` set rbs"
    using str_int_inj by force
  from fold_response_step_other [OF this] Some str_int_not_default [of c] show ?thesis
    by (simp add: responses_of_def Let_def)
qed




lemma operation_responses:
  "map_of (operation g x dh ds d) sw_responses = Some (JDict (responses_of g x d))"
  by (simp add: operation_def operation_from_def Let_def map_of_assign)

lemma operation_security:
  "map_of (operation g x dh ds d) sw_security = security_of g ds d"
  by (simp add: operation_def operation_from_def Let_def map_of_assign split: option.splits)

lemma operation_request_body:
  "map_of (operation g x dh ds d) sw_request_body = request_body_of x d"
  by (simp add: operation_def operation_from_def Let_def map_of_assign split: option.splits)

lemma example_section_built:
  "get_paths example_generator example_collaborators (example_widgets (example_endpoint\<lparr>response_body_schema := r, authenticators := a, request_body_schema := b\<rparr>)) None (Some ds) =
   Inr (example_section ds (example_endpoint\<lparr>response_body_schema := r, authenticators := a, request_body_schema := b\<rparr>))"
  by (simp add: get_paths_def example_widgets_def example_section_def path_step_def
      example_collaborators_def format_path_for_swagger_spec_def skipped_def example_endpoint_def
      set_path_params_def method_step_def lower_def lower_char_def example_generator_def)

text \<open>
  C3. Every operation of a paths section that was built belongs to a registered endpoint
  that is not filtered out, and its \<open>responses\<close> dict holds under \<open>default\<close> the response
  definition of the configured default response schema (the schema's description, and
  as the one content \<open>application/json\<close> with the schema's reference under the base
  \<open>#/components/schemas\<close>), whatever the endpoint declares; every status code the endpoint
  declares has its own entry beside it, built the same way from its schema.
\<close>

theorem default_response_always_present:
  assumes "get_paths g x ps dh ds = Inr pds" "entry pds sp k = Some v" "k \<noteq> sw_parameters"
  shows "\<exists>d op resp. emitted_endpoint g x ps sp k d \<and> v = JDict op \<and>
           map_of op sw_responses = Some (JDict resp) \<and>
           map_of resp sw_default =
             Some (JDict
               [(sw_description, JStr (get_response_description x (default_response_schema g))),
                (sw_content,
                 JDict [(application_json,
                         JDict [(sw_schema,
                                 get_ref_schema x ''#/components/schemas'' (default_response_schema g))])])]) \<and>
           (\<forall>rbs c s. response_body_schema d = Some rbs \<and> distinct (map fst rbs) \<and> (c, s) \<in> set rbs \<longrightarrow>
              map_of resp (str_int c) =
                Some (JDict (case s of
                               Some schema \<Rightarrow>
                                 [(sw_description, JStr (get_response_description x schema)),
                                  (sw_content,
                                   JDict [(application_json,
                                           JDict [(sw_schema,
                                                   get_ref_schema x ''#/components/schemas'' schema)])])]
                             | None \<Rightarrow> [(sw_description, JStr ''No response body.'')])))"
proof -
  from get_paths_operation_origin [OF assms] obtain d where
    d: "emitted_endpoint g x ps sp k d" "v = JDict (operation g x dh ds d)" by blast
  have "\<forall>rbs c s. response_body_schema d = Some rbs \<and> distinct (map fst rbs) \<and> (c, s) \<in> set rbs \<longrightarrow>
          map_of (responses_of g x d) (str_int c) =
            Some (JDict (case s of
                           Some schema \<Rightarrow>
                             [(sw_description, JStr (get_response_description x schema)),
                              (sw_content,
                               JDict [(application_json,
                                       JDict [(sw_schema,
                                               get_ref_schema x ''#/components/schemas'' schema)])])]
                         | None \<Rightarrow> [(sw_description, JStr ''No response body.'')]))"
    using responses_of_declared [where d = d and g = g and x = x]
    by (simp add: response_entry_def get_response_definition_def cong: option.case_cong)
  moreover have "map_of (responses_of g x d) sw_default =
             Some (JDict
               [(sw_description, JStr (get_response_description x (default_response_schema g))),
                (sw_content,
                 JDict [(application_json,
                         JDict [(sw_schema,
                                 get_ref_schema x ''#/components/schemas'' (default_response_schema g))])])])"
    using responses_of_default [of g x d] by (simp add: get_response_definition_def)
  ultimately show ?thesis
    using d operation_responses [of g x dh ds d] by blast
qed

theorem default_response_always_present_witness:
  "get_paths example_generator example_collaborators
     (example_widgets (example_endpoint\<lparr>response_body_schema := Some [(200, Some ''Widget'')],
        authenticators := [], request_body_schema := None\<rparr>))
     None (Some []) =
   Inr (example_section [] (example_endpoint\<lparr>response_body_schema := Some [(200, Some ''Widget'')],
        authenticators := [], request_body_schema := None\<rparr>)) \<and>
   ''get'' \<noteq> sw_parameters \<and>
   (\<exists>resp.
      map_of (operation example_generator example_collaborators None (Some [])
        (example_endpoint\<lparr>response_body_schema := Some [(200, Some ''Widget'')],
           authenticators := [], request_body_schema := None\<rparr>)) sw_responses = Some (JDict resp) \<and>
      map_of resp sw_default =
        Some (JDict
          [(sw_description, JStr ''Error''),
           (sw_content,
            JDict [(application_json,
                    JDict [(sw_schema, JDict [(''$ref'', JStr ''#/components/schemas/Error'')])])])]) \<and>
      map_of resp (str_int 200) =
        Some (JDict
          [(sw_description, JStr ''Widget''),
           (sw_content,
            JDict [(application_json,
                    JDict [(sw_schema, JDict [(''$ref'', JStr ''#/components/schemas/Widget'')])])])]))"
proof -
  let ?e = "example_endpoint\<lparr>response_body_schema := Some [(200, Some ''Widget'')],
        authenticators := [], request_body_schema := None\<rparr>"
  have h1: "get_paths example_generator example_collaborators (example_widgets ?e) None (Some []) =
            Inr (example_section [] ?e)"
    by (rule example_section_built)
  have h2: "entry (example_section [] ?e) ''/widgets'' ''get'' =
            Some (JDict (operation example_generator example_collaborators None (Some []) ?e))"
    by (simp add: entry_def example_section_def)
  have h3: "''get'' \<noteq> sw_parameters" by simp
  from default_response_always_present [OF h1 h2 h3] obtain d op resp where
    w: "emitted_endpoint example_generator example_collaborators (example_widgets ?e) ''/widgets'' ''get'' d"
       "JDict (operation example_generator example_collaborators None (Some []) ?e) = JDict op"
       "map_of op sw_responses = Some (JDict resp)"
       "map_of resp sw_default =
             Some (JDict
               [(sw_description,
                 JStr (get_response_description example_collaborators (default_response_schema example_generator))),
                (sw_content,
                 JDict [(application_json,
                         JDict [(sw_schema,
                                 get_ref_schema example_collaborators ''#/components/schemas''
                                   (default_response_schema example_generator))])])])"
       "\<forall>rbs c s. response_body_schema d = Some rbs \<and> distinct (map fst rbs) \<and> (c, s) \<in> set rbs \<longrightarrow>
              map_of resp (str_int c) =
                Some (JDict (case s of
                               Some schema \<Rightarrow>
                                 [(sw_description, JStr (get_response_description example_collaborators schema)),
                                  (sw_content,
                                   JDict [(application_json,
                                           JDict [(sw_schema,
                                                   get_ref_schema example_collaborators ''#/components/schemas'' schema)])])]
                             | None \<Rightarrow> [(sw_description, JStr ''No response body.'')]))"
    by blast
  from w(1) have d: "d = ?e"
    by (simp add: emitted_endpoint_def example_widgets_def)
  from w(2) have o: "op = operation example_generator example_collaborators None (Some []) ?e"
    by simp
  from w(4) have r1: "map_of resp sw_default =
        Some (JDict
          [(sw_description, JStr ''Error''),
           (sw_content,
            JDict [(application_json,
                    JDict [(sw_schema, JDict [(''$ref'', JStr ''#/components/schemas/Error'')])])])])"
    by (simp add: example_collaborators_def example_generator_def)
  from w(5) d have "map_of resp (str_int 200) =
                Some (JDict (case Some ''Widget'' of
                               Some schema \<Rightarrow>
                                 [(sw_description, JStr (get_response_description example_collaborators schema)),
                                  (sw_content,
                                   JDict [(application_json,
                                           JDict [(sw_schema,
                                                   get_ref_schema example_collaborators ''#/components/schemas'' schema)])])]
                             | None \<Rightarrow> [(sw_description, JStr ''No response body.'')]))"
    by simp
  then have r2: "map_of resp (str_int 200) =
        Some (JDict
          [(sw_description, JStr ''Widget''),
           (sw_content,
            JDict [(application_json,
                    JDict [(sw_schema, JDict [(''$ref'', JStr ''#/components/schemas/Widget'')])])])])"
    by (simp add: example_collaborators_def)
  from h1 h3 w(3) o r1 r2 show ?thesis by blast
qed

text \<open>
  C4. In the \<open>responses\<close> dict of an emitted operation, a status code that the endpoint
  maps to \<open>None\<close> has the entry \<open>{description: "No response body."}\<close>, which has no
  \<open>content\<close> key, and a status code that the endpoint does not declare has no entry.
\<close>

theorem no_body_response_differs_from_absent:
  assumes "get_paths g x ps dh ds = Inr pds" "entry pds sp k = Some v" "k \<noteq> sw_parameters"
  shows "\<exists>d op resp. emitted_endpoint g x ps sp k d \<and> v = JDict op \<and>
           map_of op sw_responses = Some (JDict resp) \<and>
           (\<forall>rbs c. response_body_schema d = Some rbs \<and> distinct (map fst rbs) \<and> (c, None) \<in> set rbs \<longrightarrow>
              map_of resp (str_int c) = Some (JDict [(sw_description, JStr ''No response body.'')])) \<and>
           (\<forall>c. (case response_body_schema d of None \<Rightarrow> True | Some rbs \<Rightarrow> c \<notin> fst ` set rbs) \<longrightarrow>
              map_of resp (str_int c) = None)"
proof -
  from get_paths_operation_origin [OF assms] obtain d where
    d: "emitted_endpoint g x ps sp k d" "v = JDict (operation g x dh ds d)" by blast
  have a: "\<forall>rbs c. response_body_schema d = Some rbs \<and> distinct (map fst rbs) \<and> (c, None) \<in> set rbs \<longrightarrow>
          map_of (responses_of g x d) (str_int c) = Some (JDict [(sw_description, JStr ''No response body.'')])"
    using responses_of_declared [where d = d and s = None and g = g and x = x] by (simp add: response_entry_def)
  have b: "\<forall>c. (case response_body_schema d of None \<Rightarrow> True | Some rbs \<Rightarrow> c \<notin> fst ` set rbs) \<longrightarrow>
              map_of (responses_of g x d) (str_int c) = None"
    using responses_of_undeclared [where d = d and g = g and x = x] by blast
  from d operation_responses [of g x dh ds d] a b show ?thesis by blast
qed

theorem no_body_response_differs_from_absent_witness:
  "get_paths example_generator example_collaborators
     (example_widgets (example_endpoint\<lparr>response_body_schema := Some [(200, Some ''Widget''), (204, None)],
        authenticators := [], request_body_schema := None\<rparr>))
     None (Some []) =
   Inr (example_section [] (example_endpoint\<lparr>response_body_schema := Some [(200, Some ''Widget''), (204, None)],
        authenticators := [], request_body_schema := None\<rparr>)) \<and>
   ''get'' \<noteq> sw_parameters \<and>
   (\<exists>resp.
      map_of (operation example_generator example_collaborators None (Some [])
        (example_endpoint\<lparr>response_body_schema := Some [(200, Some ''Widget''), (204, None)],
           authenticators := [], request_body_schema := None\<rparr>)) sw_responses = Some (JDict resp) \<and>
      map_of resp (str_int 204) = Some (JDict [(sw_description, JStr ''No response body.'')]) \<and>
      map_of resp (str_int 404) = None)"
proof -
  let ?e = "example_endpoint\<lparr>response_body_schema := Some [(200, Some ''Widget''), (204, None)],
        authenticators := [], request_body_schema := None\<rparr>"
  have h1: "get_paths example_generator example_collaborators (example_widgets ?e) None (Some []) =
            Inr (example_section [] ?e)"
    by (rule example_section_built)
  have h2: "entry (example_section [] ?e) ''/widgets'' ''get'' =
            Some (JDict (operation example_generator example_collaborators None (Some []) ?e))"
    by (simp add: entry_def example_section_def)
  have h3: "''get'' \<noteq> sw_parameters" by simp
  from no_body_response_differs_from_absent [OF h1 h2 h3] obtain d' op resp where
    w: "emitted_endpoint example_generator example_collaborators (example_widgets ?e) ''/widgets'' ''get'' d'"
       "JDict (operation example_generator example_collaborators None (Some []) ?e) = JDict op"
       "map_of op sw_responses = Some (JDict resp)"
       "\<forall>rbs c. response_body_schema d' = Some rbs \<and> distinct (map fst rbs) \<and> (c, None) \<in> set rbs \<longrightarrow>
              map_of resp (str_int c) = Some (JDict [(sw_description, JStr ''No response body.'')])"
       "\<forall>c. (case response_body_schema d' of None \<Rightarrow> True | Some rbs \<Rightarrow> c \<notin> fst ` set rbs) \<longrightarrow>
              map_of resp (str_int c) = None"
    by blast
  from w(1) have d': "d' = ?e"
    by (simp add: emitted_endpoint_def example_widgets_def)
  from w(4) d' have "map_of resp (str_int 204) = Some (JDict [(sw_description, JStr ''No response body.'')])"
    by simp
  moreover from w(5) d' have "map_of resp (str_int 404) = None"
    by simp
  moreover from w(2) have "op = operation example_generator example_collaborators None (Some []) ?e"
    by simp
  ultimately show ?thesis using h1 h3 w(3) by blast
qed




section \<open>Security\<close>

lemma fold_security_step:
  "fold (security_step g ds) auths (nd, sec) =
     (nd \<or> (\<exists>a. Given a \<in> set auths),
      sec @ concat (map (\<lambda>a. case a of
                               Given authenticator \<Rightarrow> get_security_requirements g authenticator
                             | USE_DEFAULT \<Rightarrow> (case ds of Some l \<Rightarrow> l | None \<Rightarrow> [])) auths))"
proof (induction auths arbitrary: nd sec)
  case Nil
  then show ?case by simp
next
  case (Cons a auths)
  show ?case
  proof (cases a)
    case USE_DEFAULT
    then show ?thesis using Cons.IH by (cases ds) auto
  next
    case (Given authenticator)
    then show ?thesis using Cons.IH by auto
  qed
qed

lemma security_of_cases:
  "security_of g ds d =
     (if authenticators d = [] then Some (JList [])
      else if \<exists>a. Given a \<in> set (authenticators d)
      then Some (JList (concat (map (\<lambda>a. case a of
                               Given authenticator \<Rightarrow> get_security_requirements g authenticator
                             | USE_DEFAULT \<Rightarrow> (case ds of Some l \<Rightarrow> l | None \<Rightarrow> [])) (authenticators d))))
      else None)"
  by (simp add: security_of_def fold_security_step)

text \<open>
  C5. For an emitted operation: no authenticators give the \<open>security\<close> key the empty list,
  whatever the default security is; authenticators of which at least one is concrete
  give it the requirements of every concrete authenticator and the default security in
  the place of every \<open>USE_DEFAULT\<close>, in the order of declaration; authenticators that are
  all \<open>USE_DEFAULT\<close> leave the operation without a \<open>security\<close> key.
\<close>

theorem operation_security_cases:
  assumes "get_paths g x ps dh (Some default_security) = Inr pds" "entry pds sp k = Some v"
    "k \<noteq> sw_parameters"
  shows "\<exists>d op. emitted_endpoint g x ps sp k d \<and> v = JDict op \<and>
           (authenticators d = [] \<longrightarrow> map_of op sw_security = Some (JList [])) \<and>
           (authenticators d \<noteq> [] \<and> (\<exists>a. Given a \<in> set (authenticators d)) \<longrightarrow>
              map_of op sw_security =
                Some (JList (concat (map (\<lambda>a. case a of
                                             Given authenticator \<Rightarrow> get_security_requirements g authenticator
                                           | USE_DEFAULT \<Rightarrow> default_security) (authenticators d))))) \<and>
           (authenticators d \<noteq> [] \<and> (\<forall>a \<in> set (authenticators d). a = USE_DEFAULT) \<longrightarrow>
              map_of op sw_security = None)"
proof -
  from get_paths_operation_origin [OF assms] obtain d where
    d: "emitted_endpoint g x ps sp k d" "v = JDict (operation g x dh (Some default_security) d)"
    by blast
  have "map_of (operation g x dh (Some default_security) d) sw_security =
        security_of g (Some default_security) d"
    by (rule operation_security)
  with d show ?thesis
    by (auto simp: security_of_cases)
qed

theorem operation_security_cases_witness:
  "get_paths example_generator example_collaborators
     (example_widgets (example_endpoint\<lparr>response_body_schema := None,
        authenticators := [Given ''key'', USE_DEFAULT], request_body_schema := None\<rparr>))
     None (Some [JDict [(''basic'', JList [])]]) =
   Inr (example_section [JDict [(''basic'', JList [])]] (example_endpoint\<lparr>response_body_schema := None,
        authenticators := [Given ''key'', USE_DEFAULT], request_body_schema := None\<rparr>)) \<and>
   ''get'' \<noteq> sw_parameters \<and>
   map_of (operation example_generator example_collaborators None (Some [JDict [(''basic'', JList [])]])
        (example_endpoint\<lparr>response_body_schema := None,
           authenticators := [Given ''key'', USE_DEFAULT], request_body_schema := None\<rparr>)) sw_security =
     Some (JList [JDict [(''key'', JList [])], JDict [(''basic'', JList [])]])"
proof -
  let ?e = "example_endpoint\<lparr>response_body_schema := None,
        authenticators := [Given ''key'', USE_DEFAULT], request_body_schema := None\<rparr>"
  let ?ds = "[JDict [(''basic'', JList [])]]"
  have h1: "get_paths example_generator example_collaborators (example_widgets ?e) None (Some ?ds) =
            Inr (example_section ?ds ?e)"
    by (rule example_section_built)
  have h2: "entry (example_section ?ds ?e) ''/widgets'' ''get'' =
            Some (JDict (operation example_generator example_collaborators None (Some ?ds) ?e))"
    by (simp add: entry_def example_section_def)
  have h3: "''get'' \<noteq> sw_parameters" by simp
  from operation_security_cases [OF h1 h2 h3] obtain d op where
    w: "emitted_endpoint example_generator example_collaborators (example_widgets ?e) ''/widgets'' ''get'' d"
       "JDict (operation example_generator example_collaborators None (Some ?ds) ?e) = JDict op"
       "authenticators d \<noteq> [] \<and> (\<exists>a. Given a \<in> set (authenticators d)) \<longrightarrow>
              map_of op sw_security =
                Some (JList (concat (map (\<lambda>a. case a of
                                             Given authenticator \<Rightarrow> get_security_requirements example_generator authenticator
                                           | USE_DEFAULT \<Rightarrow> ?ds) (authenticators d))))"
    by blast
  from w(1) have d: "d = ?e"
    by (simp add: emitted_endpoint_def example_widgets_def)
  from w(2) have "op = operation example_generator example_collaborators None (Some ?ds) ?e"
    by simp
  with w(3) d have "map_of (operation example_generator example_collaborators None (Some ?ds) ?e) sw_security =
     Some (JList [JDict [(''key'', JList [])], JDict [(''basic'', JList [])]])"
    by (simp add: example_generator_def)
  with h1 h3 show ?thesis by blast
qed

text \<open>
  C9. An emitted operation of an endpoint with a request body schema has under
  \<open>requestBody\<close> the dict with \<open>required\<close> true and a \<open>content\<close> of the one media type
  \<open>application/json\<close>, whose schema is \<open>get_ref_schema\<close> of the base
  \<open>#/components/schemas\<close> and the schema; without a request body schema the operation has
  no \<open>requestBody\<close> key.
\<close>

theorem operation_request_body_cases:
  assumes "get_paths g x ps dh ds = Inr pds" "entry pds sp k = Some v" "k \<noteq> sw_parameters"
  shows "\<exists>d op. emitted_endpoint g x ps sp k d \<and> v = JDict op \<and>
           map_of op sw_request_body =
             (case request_body_schema d of
                Some schema \<Rightarrow>
                  Some (JDict
                    [(sw_required, JBool True),
                     (sw_content,
                      JDict [(application_json,
                              JDict [(sw_schema, get_ref_schema x ''#/components/schemas'' schema)])])])
              | None \<Rightarrow> None)"
proof -
  from get_paths_operation_origin [OF assms] obtain d where
    d: "emitted_endpoint g x ps sp k d" "v = JDict (operation g x dh ds d)"
    by blast
  have "map_of (operation g x dh ds d) sw_request_body = request_body_of x d"
    by (rule operation_request_body)
  with d show ?thesis
    unfolding request_body_of_def by blast
qed

theorem operation_request_body_cases_witness:
  "get_paths example_generator example_collaborators
     (example_widgets (example_endpoint\<lparr>response_body_schema := None,
        authenticators := [], request_body_schema := Some ''Widget''\<rparr>))
     None (Some []) =
   Inr (example_section [] (example_endpoint\<lparr>response_body_schema := None,
        authenticators := [], request_body_schema := Some ''Widget''\<rparr>)) \<and>
   ''get'' \<noteq> sw_parameters \<and>
   map_of (operation example_generator example_collaborators None (Some [])
        (example_endpoint\<lparr>response_body_schema := None,
           authenticators := [], request_body_schema := Some ''Widget''\<rparr>)) sw_request_body =
     Some (JDict
       [(sw_required, JBool True),
        (sw_content,
         JDict [(application_json,
                 JDict [(sw_schema, JDict [(''$ref'', JStr ''#/components/schemas/Widget'')])])])])"
proof -
  let ?e = "example_endpoint\<lparr>response_body_schema := None,
        authenticators := [], request_body_schema := Some ''Widget''\<rparr>"
  have h1: "get_paths example_generator example_collaborators (example_widgets ?e) None (Some []) =
            Inr (example_section [] ?e)"
    by (rule example_section_built)
  have h2: "entry (example_section [] ?e) ''/widgets'' ''get'' =
            Some (JDict (operation example_generator example_collaborators None (Some []) ?e))"
    by (simp add: entry_def example_section_def)
  have h3: "''get'' \<noteq> sw_parameters" by simp
  from operation_request_body_cases [OF h1 h2 h3] obtain d op where
    w: "emitted_endpoint example_generator example_collaborators (example_widgets ?e) ''/widgets'' ''get'' d"
       "JDict (operation example_generator example_collaborators None (Some []) ?e) = JDict op"
       "map_of op sw_request_body =
             (case request_body_schema d of
                Some schema \<Rightarrow>
                  Some (JDict
                    [(sw_required, JBool True),
                     (sw_content,
                      JDict [(application_json,
                              JDict [(sw_schema, get_ref_schema example_collaborators ''#/components/schemas'' schema)])])])
              | None \<Rightarrow> None)"
    by blast
  from w(1) have d: "d = ?e"
    by (simp add: emitted_endpoint_def example_widgets_def)
  from w(2) have "op = operation example_generator example_collaborators None (Some []) ?e"
    by simp
  with w(3) d have "map_of (operation example_generator example_collaborators None (Some []) ?e) sw_request_body =
     Some (JDict
       [(sw_required, JBool True),
        (sw_content,
         JDict [(application_json,
                 JDict [(sw_schema, JDict [(''$ref'', JStr ''#/components/schemas/Widget'')])])])])"
    by (simp add: example_collaborators_def)
  with h1 h3 show ?thesis by blast
qed

section \<open>Query-string and header parameters\<close>

lemma pop_value: "fst (pop k d) = (case map_of d k of Some v \<Rightarrow> v | None \<Rightarrow> JNull)"
  by (simp add: pop_def)

lemma pop_rest: "map_of (snd (pop k d)) k' = (if k' = k then None else map_of d k')"
  by (simp add: pop_def delete_conv')

lemma convert_field_shape:
  "\<exists>parameter sch.
     convert_field x converter param_in pf = JDict parameter \<and>
     map_of parameter sw_name = Some (JStr (fst pf)) \<and>
     map_of parameter sw_in = Some (JStr param_in) \<and>
     map_of parameter sw_required = Some (JBool (field_required x (snd pf))) \<and>
     map_of parameter sw_schema = Some (JDict sch) \<and>
     map_of parameter sw_explode = hint (converter (snd pf)) sw_explode \<and>
     map_of parameter sw_description = hint (converter (snd pf)) sw_description \<and>
     map_of parameter sw_style = hint (converter (snd pf)) sw_style \<and>
     map_of sch sw_explode = None \<and> map_of sch sw_description = None \<and> map_of sch sw_style = None \<and>
     (\<forall>k. k \<noteq> sw_explode \<and> k \<noteq> sw_description \<and> k \<noteq> sw_style \<longrightarrow>
        map_of sch k = map_of (converter (snd pf)) k)"
proof -
  define js0 where "js0 = converter (snd pf)"
  define js1 where "js1 = snd (pop sw_explode js0)"
  define js2 where "js2 = snd (pop sw_description js1)"
  define js3 where "js3 = snd (pop sw_style js2)"
  define e where "e = fst (pop sw_explode js0)"
  define de where "de = fst (pop sw_description js1)"
  define st where "st = fst (pop sw_style js2)"
  define p0 where "p0 = [(sw_name, JStr (fst pf)), (sw_in, JStr param_in), (sw_schema, JDict js3),
                         (sw_required, JBool (field_required x (snd pf)))]"
  define p1 where "p1 = (if e \<noteq> JNull then AList.update sw_explode e p0 else p0)"
  define p2 where "p2 = (if de \<noteq> JNull then AList.update sw_description de p1 else p1)"
  define p3 where "p3 = (if st \<noteq> JNull then AList.update sw_style st p2 else p2)"
  have c: "convert_field x converter param_in pf = JDict p3"
    by (simp add: convert_field_def Let_def split_beta js0_def js1_def js2_def js3_def e_def de_def st_def
        p0_def p1_def p2_def p3_def)
  have m3: "map_of js3 k = (if k = sw_explode \<or> k = sw_description \<or> k = sw_style then None else map_of js0 k)" for k
    by (simp add: js3_def js2_def js1_def pop_rest)
  have ev: "e = (case map_of js0 sw_explode of Some v \<Rightarrow> v | None \<Rightarrow> JNull)"
    by (simp add: e_def pop_value)
  have dv: "de = (case map_of js0 sw_description of Some v \<Rightarrow> v | None \<Rightarrow> JNull)"
    by (simp add: de_def pop_value js1_def pop_rest)
  have sv: "st = (case map_of js0 sw_style of Some v \<Rightarrow> v | None \<Rightarrow> JNull)"
    by (simp add: st_def pop_value js2_def js1_def pop_rest)
  have q1: "map_of p3 sw_name = Some (JStr (fst pf))"
    by (simp add: p3_def p2_def p1_def p0_def update_conv')
  have q2: "map_of p3 sw_in = Some (JStr param_in)"
    by (simp add: p3_def p2_def p1_def p0_def update_conv')
  have q3: "map_of p3 sw_required = Some (JBool (field_required x (snd pf)))"
    by (simp add: p3_def p2_def p1_def p0_def update_conv')
  have q4: "map_of p3 sw_schema = Some (JDict js3)"
    by (simp add: p3_def p2_def p1_def p0_def update_conv')
  have q5: "map_of p3 sw_explode = hint js0 sw_explode"
    by (simp add: p3_def p2_def p1_def p0_def update_conv' ev hint_def split: option.splits)
  have q6: "map_of p3 sw_description = hint js0 sw_description"
    by (simp add: p3_def p2_def p1_def p0_def update_conv' dv hint_def split: option.splits)
  have q7: "map_of p3 sw_style = hint js0 sw_style"
    by (simp add: p3_def p2_def p1_def p0_def update_conv' sv hint_def split: option.splits)
  from c q1 q2 q3 q4 q5 q6 q7 m3 show ?thesis
    unfolding js0_def [symmetric] by (intro exI [of _ p3] exI [of _ js3]) simp
qed




text \<open>
  C8. The \<open>i\<close>-th parameter of a flattened schema is built from its \<open>i\<close>-th field: it has
  the field's name, the given location and \<open>required\<close> equal to the field's; each of
  \<open>explode\<close>, \<open>description\<close> and \<open>style\<close> that the converter produced with a value other
  than \<open>None\<close> is a key of the parameter with that value, and otherwise is no key of the
  parameter (so never a null); none of the three is a key of the nested schema, whose
  other keys are those the converter produced.
\<close>

theorem flattened_parameter:
  assumes "i < length (get_schema_fields x schema)"
  shows "length (convert_schema_to_list_of_parameters x schema converter param_in) =
           length (get_schema_fields x schema) \<and>
         (\<exists>parameter sch.
            convert_schema_to_list_of_parameters x schema converter param_in ! i = JDict parameter \<and>
            map_of parameter sw_name = Some (JStr (fst (get_schema_fields x schema ! i))) \<and>
            map_of parameter sw_in = Some (JStr param_in) \<and>
            map_of parameter sw_required =
              Some (JBool (field_required x (snd (get_schema_fields x schema ! i)))) \<and>
            map_of parameter sw_schema = Some (JDict sch) \<and>
            (\<forall>h \<in> {sw_explode, sw_description, sw_style}.
               map_of parameter h = hint (converter (snd (get_schema_fields x schema ! i))) h \<and>
               map_of parameter h \<noteq> Some JNull \<and>
               map_of sch h = None) \<and>
            (\<forall>k. k \<notin> {sw_explode, sw_description, sw_style} \<longrightarrow>
               map_of sch k = map_of (converter (snd (get_schema_fields x schema ! i))) k))"
proof -
  have n: "hint js h \<noteq> Some JNull" for js h
    by (simp add: hint_def split: option.splits)
  from convert_field_shape [of x converter param_in "get_schema_fields x schema ! i"]
  obtain parameter sch where
    p: "convert_field x converter param_in (get_schema_fields x schema ! i) = JDict parameter"
       "map_of parameter sw_name = Some (JStr (fst (get_schema_fields x schema ! i)))"
       "map_of parameter sw_in = Some (JStr param_in)"
       "map_of parameter sw_required = Some (JBool (field_required x (snd (get_schema_fields x schema ! i))))"
       "map_of parameter sw_schema = Some (JDict sch)"
       "map_of parameter sw_explode = hint (converter (snd (get_schema_fields x schema ! i))) sw_explode"
       "map_of parameter sw_description = hint (converter (snd (get_schema_fields x schema ! i))) sw_description"
       "map_of parameter sw_style = hint (converter (snd (get_schema_fields x schema ! i))) sw_style"
       "map_of sch sw_explode = None" "map_of sch sw_description = None" "map_of sch sw_style = None"
       "\<forall>k. k \<noteq> sw_explode \<and> k \<noteq> sw_description \<and> k \<noteq> sw_style \<longrightarrow>
          map_of sch k = map_of (converter (snd (get_schema_fields x schema ! i))) k"
    by blast
  have "convert_schema_to_list_of_parameters x schema converter param_in ! i = JDict parameter"
    using assms p(1) by (simp add: convert_schema_to_list_of_parameters_def)
  moreover have "length (convert_schema_to_list_of_parameters x schema converter param_in) =
           length (get_schema_fields x schema)"
    by (simp add: convert_schema_to_list_of_parameters_def)
  moreover have "\<exists>parameter sch.
            convert_schema_to_list_of_parameters x schema converter param_in ! i = JDict parameter \<and>
            map_of parameter sw_name = Some (JStr (fst (get_schema_fields x schema ! i))) \<and>
            map_of parameter sw_in = Some (JStr param_in) \<and>
            map_of parameter sw_required =
              Some (JBool (field_required x (snd (get_schema_fields x schema ! i)))) \<and>
            map_of parameter sw_schema = Some (JDict sch) \<and>
            (\<forall>h \<in> {sw_explode, sw_description, sw_style}.
               map_of parameter h = hint (converter (snd (get_schema_fields x schema ! i))) h \<and>
               map_of parameter h \<noteq> Some JNull \<and>
               map_of sch h = None) \<and>
            (\<forall>k. k \<notin> {sw_explode, sw_description, sw_style} \<longrightarrow>
               map_of sch k = map_of (converter (snd (get_schema_fields x schema ! i))) k)"
    apply (rule exI [of _ parameter])
    apply (rule exI [of _ sch])
    using calculation(1) p(2-12) n apply simp
    done
  ultimately show ?thesis by blast
qed





theorem flattened_parameter_witness:
  "0 < length (get_schema_fields example_field_collaborators ''Query'') \<and>
   (\<exists>parameter sch.
      convert_schema_to_list_of_parameters example_field_collaborators ''Query''
        example_field_converter sw_query ! 0 = JDict parameter \<and>
      map_of parameter sw_name = Some (JStr ''limit'') \<and>
      map_of parameter sw_required = Some (JBool True) \<and>
      map_of parameter sw_schema = Some (JDict sch) \<and>
      map_of parameter sw_explode = Some (JBool True) \<and>
      map_of parameter sw_description = None \<and>
      map_of parameter sw_style = None \<and>
      map_of sch sw_explode = None \<and>
      map_of sch sw_type = Some (JStr ''array''))"
proof -
  have h: "0 < length (get_schema_fields example_field_collaborators ''Query'')"
    by (simp add: example_field_collaborators_def)
  have f: "get_schema_fields example_field_collaborators ''Query'' ! 0 = (''limit'', ''Integer'')"
    by (simp add: example_field_collaborators_def)
  have r: "field_required example_field_collaborators ''Integer'' = True"
    by (simp add: example_field_collaborators_def)
  have e: "hint (example_field_converter ''Integer'') sw_explode = Some (JBool True)"
          "hint (example_field_converter ''Integer'') sw_description = None"
          "hint (example_field_converter ''Integer'') sw_style = None"
          "map_of (example_field_converter ''Integer'') sw_type = Some (JStr ''array'')"
    by (simp_all add: hint_def example_field_converter_def)
  from flattened_parameter [OF h, of example_field_converter sw_query] obtain parameter sch where
    w: "convert_schema_to_list_of_parameters example_field_collaborators ''Query''
          example_field_converter sw_query ! 0 = JDict parameter"
       "map_of parameter sw_name =
          Some (JStr (fst (get_schema_fields example_field_collaborators ''Query'' ! 0)))"
       "map_of parameter sw_required =
          Some (JBool (field_required example_field_collaborators
                  (snd (get_schema_fields example_field_collaborators ''Query'' ! 0))))"
       "map_of parameter sw_schema = Some (JDict sch)"
       "\<forall>h \<in> {sw_explode, sw_description, sw_style}.
          map_of parameter h =
            hint (example_field_converter (snd (get_schema_fields example_field_collaborators ''Query'' ! 0))) h \<and>
          map_of parameter h \<noteq> Some JNull \<and>
          map_of sch h = None"
       "\<forall>k. k \<notin> {sw_explode, sw_description, sw_style} \<longrightarrow>
          map_of sch k =
            map_of (example_field_converter (snd (get_schema_fields example_field_collaborators ''Query'' ! 0))) k"
    by blast
  from w(2) f have n: "map_of parameter sw_name = Some (JStr ''limit'')" by simp
  from w(3) f r have q: "map_of parameter sw_required = Some (JBool True)" by simp
  from w(5) f e have x1: "map_of parameter sw_explode = Some (JBool True)" by simp
  from w(5) f e have x2: "map_of parameter sw_description = None" by simp
  from w(5) f e have x3: "map_of parameter sw_style = None" by simp
  from w(5) have x4: "map_of sch sw_explode = None" by simp
  from w(6) f e have x5: "map_of sch sw_type = Some (JStr ''array'')" by simp
  from h w(1) n q w(4) x1 x2 x3 x4 x5 show ?thesis by blast
qed

section \<open>Key order of the document\<close>


subsection \<open>The store\<close>

lemma popped_without_hints:
  "map_of d sw_explode = None \<Longrightarrow> map_of d sw_description = None \<Longrightarrow> map_of d sw_style = None \<Longrightarrow>
   popped d = d"
  by (simp add: popped_def pop_def map_of_eq_None_iff)

lemma after_pops_settled: "settled s h \<Longrightarrow> after_pops s h = s"
  by (cases h) (simp_all add: popped_without_hints)

lemma convert_field_converter:
  "converter (snd pf) = converter' (snd pf) \<Longrightarrow>
   convert_field x converter param_in pf = convert_field x converter' param_in pf"
  by (simp add: convert_field_def)

lemma convert_fields_st_settled:
  "\<forall>field. settled s (converter field) \<Longrightarrow>
   convert_fields_st x converter param_in pfs s =
     (map (convert_field x (\<lambda>field. view s (converter field)) param_in) pfs, s)"
  by (induction pfs) (simp_all add: convert_field_st_def after_pops_settled)

lemma parameters_of_st_settled:
  assumes "\<forall>field. settled s (qc field)" "\<forall>field. settled s (hc field)"
  shows "parameters_of_st x qc hc dh d s = (parameters_of (with_views g s qc hc) x dh d, s)"
  using assms
  by (simp add: parameters_of_st_def parameters_of_def with_views_def Let_def
      convert_schema_to_list_of_parameters_st_def convert_schema_to_list_of_parameters_def
      convert_fields_st_settled split: option.splits or_default.splits)

lemma security_step_with_views:
  "security_step (with_views g s qc hc) ds = security_step g ds"
proof (intro ext)
  fix a st
  show "security_step (with_views g s qc hc) ds a st = security_step g ds a st"
    by (cases a; cases st) (simp_all add: with_views_def)
qed

lemma generator_parts_with_views:
  "responses_of (with_views g s qc hc) x d = responses_of g x d"
  "security_of (with_views g s qc hc) ds d = security_of g ds d"
  "skipped (with_views g s qc hc) ms = skipped g ms"
  "include_hidden (with_views g s qc hc) = include_hidden g"
  "get_security_requirements (with_views g s qc hc) = get_security_requirements g"
  "document (with_views g s qc hc) x host sort_keys c dsl pds = document g x host sort_keys c dsl pds"
  by (simp_all add: responses_of_def security_of_def security_step_with_views skipped_def document_def)
     (simp_all add: with_views_def)

lemma get_components_with_views:
  "get_components (with_views g s qc hc) x registry = get_components g x registry"
  by (simp add: with_views_def get_components_def split: sum.splits)

lemma path_params_of_with_views:
  "path_params_of (with_views g s qc hc) args = path_params_of g args"
proof (induction args)
  case Nil
  then show ?case by simp
next
  case (Cons a args)
  have "flask_converters_to_swagger_types (with_views g s qc hc) = flask_converters_to_swagger_types g"
    by (simp add: with_views_def)
  with Cons show ?case by (simp split: option.splits)
qed

lemma set_path_params_with_views:
  "set_path_params (with_views g s qc hc) x args pd = set_path_params g x args pd"
  by (simp add: set_path_params_def path_params_of_with_views)

lemma operation_from_with_views:
  "operation_from (with_views g s qc hc) x ds d ps = operation_from g x ds d ps"
  by (simp add: operation_from_def generator_parts_with_views)

lemma method_step_st_settled:
  assumes "\<forall>field. settled s (qc field)" "\<forall>field. settled s (hc field)"
  shows "method_step_st g x qc hc dh ds md (pd, s) =
           (method_step (with_views g s qc hc) x dh ds md pd, s)"
  by (simp add: method_step_st_def method_step_def parameters_of_st_settled [OF assms, of x dh _ g]
      operation_def operation_from_with_views generator_parts_with_views)

lemma fold_method_step_st_settled:
  assumes "\<forall>field. settled s (qc field)" "\<forall>field. settled s (hc field)"
  shows "fold (method_step_st g x qc hc dh ds) ms (pd, s) =
           (fold (method_step (with_views g s qc hc) x dh ds) ms pd, s)"
  by (induction ms arbitrary: pd) (simp_all add: method_step_st_settled [OF assms])

lemma path_step_st_settled:
  assumes "\<forall>field. settled s (qc field)" "\<forall>field. settled s (hc field)"
  shows "path_step_st g x qc hc dh ds pm (pds, s) =
           map_sum id (\<lambda>pds'. (pds', s)) (path_step (with_views g s qc hc) x dh ds pm pds)"
  by (simp add: path_step_st_def path_step_def fold_method_step_st_settled [OF assms]
      generator_parts_with_views set_path_params_with_views
      split: prod.splits sum.splits)

lemma get_paths_loop_st_settled:
  assumes "\<forall>field. settled s (qc field)" "\<forall>field. settled s (hc field)"
  shows "get_paths_loop_st g x qc hc dh ds ps (pds, s) =
           map_sum id (\<lambda>pds'. (pds', s)) (get_paths_loop (with_views g s qc hc) x dh ds ps pds)"
proof (induction ps arbitrary: pds)
  case Nil
  then show ?case by simp
next
  case (Cons pm ps)
  then show ?case
    by (cases "path_step (with_views g s qc hc) x dh ds pm pds")
       (simp_all add: path_step_st_settled [OF assms])
qed

lemma generate_st_settled:
  assumes "\<forall>field. settled s (qc field)" "\<forall>field. settled s (hc field)"
  shows "generate_st g x qc hc registry host sort_keys s =
           map_sum id (\<lambda>doc. (doc, s)) (generate (with_views g s qc hc) x registry host sort_keys)"
proof (cases "get_components g x registry")
  case (Inl e)
  then show ?thesis
    by (simp add: generate_st_def generate_def get_components_with_views)
next
  case (Inr components)
  then show ?thesis
    by (cases "get_paths_loop (with_views g s qc hc) x (default_headers_schema registry)
                 (Some (concat (map (get_security_requirements g) (default_authenticators registry))))
                 (paths registry) []")
       (simp_all add: generate_st_def generate_def get_paths_st_def get_paths_def Let_def
          get_paths_loop_st_settled [OF assms] generator_parts_with_views get_components_with_views)
qed


text \<open>
  The embedding without a store is the one with a store whose converters build a dict for
  every call.
\<close>

lemma generate_st_fresh:
  "generate_st g x (\<lambda>field. Fresh (query_string_converter g field))
     (\<lambda>field. Fresh (headers_converter g field)) registry host sort_keys s =
   map_sum id (\<lambda>doc. (doc, s)) (generate g x registry host sort_keys)"
proof -
  have "with_views g s (\<lambda>field. Fresh (query_string_converter g field))
          (\<lambda>field. Fresh (headers_converter g field)) = g"
    by (simp add: with_views_def)
  with generate_st_settled [of s "\<lambda>field. Fresh (query_string_converter g field)"
      "\<lambda>field. Fresh (headers_converter g field)" g x registry host sort_keys]
  show ?thesis by simp
qed




section \<open>Conflicting path parameters\<close>

lemma fold_method_step_other:
  "\<forall>md \<in> set ms. lower (fst md) \<noteq> k \<Longrightarrow>
   map_of (fold (method_step g x dh ds) ms pd) k = map_of pd k"
  by (induction ms arbitrary: pd) (auto simp: method_step_def update_conv')

lemma path_step_stores_parameters:
  assumes "path_step g x dh ds (p, ms) pds = Inr pds'" "\<not> skipped g ms"
    "format_path_for_swagger x p = (sp, args)" "args \<noteq> []" "path_params_of g args = Inr pp"
    "\<forall>md \<in> set ms. lower (fst md) \<noteq> sw_parameters"
  shows "entry pds' sp sw_parameters = Some (JList pp)"
proof -
  define pd0 where "pd0 = (case map_of pds sp of Some pd \<Rightarrow> pd | None \<Rightarrow> [])"
  from assms(1,2,3) obtain pd1 where
    s: "set_path_params g x args pd0 = Inr pd1" and
    r: "pds' = AList.update sp (fold (method_step g x dh ds) ms pd1) pds"
    by (auto simp: path_step_def pd0_def split: sum.splits)
  from s assms(4,5) have "map_of pd1 sw_parameters = Some (JList pp)"
    by (auto simp: set_path_params_def update_conv' split: sum.splits option.splits)
  with fold_method_step_other [OF assms(6)] r show ?thesis
    by (simp add: entry_def update_conv')
qed

lemma path_step_other_spec_path:
  assumes "path_step g x dh ds pm pds = Inr pds'"
    "skipped g (snd pm) \<or> fst (format_path_for_swagger x (fst pm)) \<noteq> sp"
  shows "entry pds' sp k = entry pds sp k"
proof (cases "skipped g (snd pm)")
  case True
  with assms(1) show ?thesis by (simp add: path_step_skipped)
next
  case False
  with assms(2) have n: "fst (format_path_for_swagger x (fst pm)) \<noteq> sp" by simp
  from assms(1) False obtain pd where
    "pds' = AList.update (fst (format_path_for_swagger x (fst pm))) pd pds"
    by (auto simp: path_step_def split: prod.splits sum.splits)
  with n show ?thesis by (simp add: entry_def update_conv')
qed

lemma get_paths_loop_other_spec_path:
  "get_paths_loop g x dh ds mid pds = Inr pds' \<Longrightarrow>
   \<forall>pm \<in> set mid. skipped g (snd pm) \<or> fst (format_path_for_swagger x (fst pm)) \<noteq> sp \<Longrightarrow>
   entry pds' sp k = entry pds sp k"
proof (induction mid arbitrary: pds)
  case Nil
  then show ?case by simp
next
  case (Cons pm mid)
  from Cons.prems(1) obtain pds1 where
    st: "path_step g x dh ds pm pds = Inr pds1" and
    lp: "get_paths_loop g x dh ds mid pds1 = Inr pds'"
    by (auto split: sum.splits)
  from Cons.prems(2) have a: "skipped g (snd pm) \<or> fst (format_path_for_swagger x (fst pm)) \<noteq> sp"
    and b: "\<forall>pm \<in> set mid. skipped g (snd pm) \<or> fst (format_path_for_swagger x (fst pm)) \<noteq> sp"
    by simp_all
  from Cons.IH [OF lp b] path_step_other_spec_path [OF st a] show ?case by simp
qed

lemma path_step_rejects:
  assumes "entry pds sp sw_parameters = Some stored" "\<not> skipped g ms"
    "format_path_for_swagger x p = (sp, args)" "args \<noteq> []" "path_params_of g args = Inr pp"
    "verify_parameters_are_the_same x stored (JList pp) = Inl e"
  shows "path_step g x dh ds (p, ms) pds = Inl e"
proof -
  from assms(1) obtain pd where pd: "map_of pds sp = Some pd" "map_of pd sw_parameters = Some stored"
    by (auto simp: entry_def split: option.splits)
  with assms(4,5,6) have "set_path_params g x args pd = Inl e"
    by (simp add: set_path_params_def)
  with pd(1) assms(2,3) show ?thesis
    by (simp add: path_step_def)
qed

lemma generate_fails_with_paths:
  "get_components g x registry = Inr c \<Longrightarrow>
   get_paths g x (paths registry) (default_headers_schema registry)
     (Some (concat (map (get_security_requirements g) (default_authenticators registry)))) = Inl e \<Longrightarrow>
   generate g x registry host sort_keys = Inl e"
  by (simp add: generate_def)

lemma path_params_of_member:
  "path_params_of g args = Inr pp \<Longrightarrow> a \<in> set args \<Longrightarrow>
   \<exists>t. flask_converters_to_swagger_types g (arg_type a) = Some t \<and> path_param a t \<in> set pp"
proof (induction args arbitrary: pp)
  case Nil
  then show ?case by simp
next
  case (Cons b args)
  from Cons.prems(1) obtain t pp' where
    t: "flask_converters_to_swagger_types g (arg_type b) = Some t" and
    r: "path_params_of g args = Inr pp'" and
    p: "pp = path_param b t # pp'"
    by (auto split: option.splits sum.splits)
  show ?case
  proof (cases "a = b")
    case True
    with t p show ?thesis by simp
  next
    case False
    with Cons.prems(2) have "a \<in> set args" by simp
    from Cons.IH [OF r this] p show ?thesis by auto
  qed
qed

lemma path_param_fields:
  "dict_get sw_name (path_param a t) = Some (JStr (arg_name a))"
  "declared_type (path_param a t) = Some (JStr t)"
  by (simp_all add: dict_get_def declared_type_def path_param_def)

lemma verify_spec_rejects_type_conflict:
  assumes "path_params_of g args_a = Inr pp_a" "path_params_of g args_b = Inr pp_b"
    "a \<in> set args_a" "b \<in> set args_b" "arg_name a = arg_name b"
    "flask_converters_to_swagger_types g (arg_type a) \<noteq> flask_converters_to_swagger_types g (arg_type b)"
  shows "verify_parameters_are_the_same_spec (JList pp_a) (JList pp_b) = Inl ParameterMismatch"
proof -
  from path_params_of_member [OF assms(1,3)] obtain ta where
    ta: "flask_converters_to_swagger_types g (arg_type a) = Some ta" "path_param a ta \<in> set pp_a" by blast
  from path_params_of_member [OF assms(2,4)] obtain tb where
    tb: "flask_converters_to_swagger_types g (arg_type b) = Some tb" "path_param b tb \<in> set pp_b" by blast
  from ta(1) tb(1) assms(6) have "ta \<noteq> tb" by auto
  with assms(5) have
    "dict_get sw_name (path_param a ta) = dict_get sw_name (path_param b tb) \<and>
     declared_type (path_param a ta) \<noteq> declared_type (path_param b tb)"
    by (simp add: path_param_fields)
  with ta(2) tb(2) have
    "list_ex (\<lambda>p. list_ex (\<lambda>q. dict_get sw_name p = dict_get sw_name q \<and>
                                   declared_type p \<noteq> declared_type q) pp_b) pp_a"
    unfolding list_ex_iff by blast
  then show ?thesis
    by (simp add: verify_parameters_are_the_same_spec_def elements_def)
qed

text \<open>
  C1, as amended. Two path templates format to the same spec path and have placeholders;
  both are on paths that are not skipped; no path between them that is processed has
  that spec path and the first has no method whose lower-case name is \<open>parameters\<close>, so
  the first one's parameter list is the one stored when the second is reached; the
  generation reaches the second without an error, and every converter tag of the second
  is in the table. If the verification rejects the two parameter lists, \<open>generate\<close> fails
  with the verification's error and returns no document.
\<close>

theorem conflicting_path_parameters_rejected:
  assumes "paths registry = pre @ (pa, ma) # mid @ (pb, mb) # post"
    and "get_components g x registry = Inr c"
    and "get_paths g x (pre @ (pa, ma) # mid) (default_headers_schema registry)
           (Some (concat (map (get_security_requirements g) (default_authenticators registry)))) = Inr pds"
    and "\<not> skipped g ma" "\<not> skipped g mb"
    and "format_path_for_swagger x pa = (sp, args_a)" "format_path_for_swagger x pb = (sp, args_b)"
    and "args_a \<noteq> []" "args_b \<noteq> []"
    and "path_params_of g args_a = Inr pp_a" "path_params_of g args_b = Inr pp_b"
    and "\<forall>md \<in> set ma. lower (fst md) \<noteq> sw_parameters"
    and "\<forall>pm \<in> set mid. skipped g (snd pm) \<or> fst (format_path_for_swagger x (fst pm)) \<noteq> sp"
    and "verify_parameters_are_the_same x (JList pp_a) (JList pp_b) = Inl e"
  shows "generate g x registry host sort_keys = Inl e"
proof -
  let ?dh = "default_headers_schema registry"
  let ?ds = "Some (concat (map (get_security_requirements g) (default_authenticators registry)))"
  from assms(3) obtain pds0 pds1 where
    l0: "get_paths_loop g x ?dh ?ds pre [] = Inr pds0" and
    sa: "path_step g x ?dh ?ds (pa, ma) pds0 = Inr pds1" and
    lm: "get_paths_loop g x ?dh ?ds mid pds1 = Inr pds"
    by (auto simp: get_paths_def get_paths_loop_append split: sum.splits)
  from path_step_stores_parameters [OF sa assms(4) assms(6) assms(8) assms(10) assms(12)]
  have "entry pds1 sp sw_parameters = Some (JList pp_a)" .
  with get_paths_loop_other_spec_path [OF lm assms(13), of sw_parameters]
  have "entry pds sp sw_parameters = Some (JList pp_a)" by simp
  from path_step_rejects [OF this assms(5) assms(7) assms(9) assms(11) assms(14)]
  have "path_step g x ?dh ?ds (pb, mb) pds = Inl e" .
  then have "get_paths_loop g x ?dh ?ds ((pb, mb) # post) pds = Inl e" by simp
  moreover have "pre @ (pa, ma) # mid @ (pb, mb) # post = (pre @ (pa, ma) # mid) @ (pb, mb) # post"
    by simp
  ultimately have "get_paths g x (paths registry) ?dh ?ds = Inl e"
    using assms(1,3) by (simp only: get_paths_def get_paths_loop_append sum.case)
  from generate_fails_with_paths [OF assms(2) this] show ?thesis .
qed

theorem conflicting_path_parameters_rejected_witness:
  "paths example_conflict_registry =
     [] @ (''/widgets/<int:id>'', [(''GET'', example_endpoint)]) # [] @
     (''/widgets/<string:id>'', [(''POST'', example_endpoint)]) # [] \<and>
   \<not> skipped example_generator [(''GET'', example_endpoint)] \<and>
   \<not> skipped example_generator [(''POST'', example_endpoint)] \<and>
   format_path_for_swagger example_collaborators ''/widgets/<int:id>'' =
     (''/widgets/{id}'', [\<lparr>arg_name = ''id'', arg_type = ''int''\<rparr>]) \<and>
   format_path_for_swagger example_collaborators ''/widgets/<string:id>'' =
     (''/widgets/{id}'', [\<lparr>arg_name = ''id'', arg_type = ''string''\<rparr>]) \<and>
   verify_parameters_are_the_same example_collaborators
     (JList [path_param \<lparr>arg_name = ''id'', arg_type = ''int''\<rparr> ''integer''])
     (JList [path_param \<lparr>arg_name = ''id'', arg_type = ''string''\<rparr> ''string'']) = Inl ParameterMismatch \<and>
   generate example_generator example_collaborators example_conflict_registry None True =
     Inl ParameterMismatch"
proof -
  let ?a = "\<lparr>arg_name = ''id'', arg_type = ''int''\<rparr>"
  let ?b = "\<lparr>arg_name = ''id'', arg_type = ''string''\<rparr>"
  let ?ma = "[(''GET'', example_endpoint)]"
  let ?mb = "[(''POST'', example_endpoint)]"
  have h1: "paths example_conflict_registry =
     [] @ (''/widgets/<int:id>'', ?ma) # [] @ (''/widgets/<string:id>'', ?mb) # []"
    by (simp add: example_conflict_registry_def)
  have h2: "get_components example_generator example_collaborators example_conflict_registry = Inr []"
    by (simp add: get_components_def example_collaborators_def)
  have h3: "get_paths example_generator example_collaborators ([] @ (''/widgets/<int:id>'', ?ma) # [])
              (default_headers_schema example_conflict_registry)
              (Some (concat (map (get_security_requirements example_generator)
                 (default_authenticators example_conflict_registry)))) =
            Inr [(''/widgets/{id}'',
                  [(sw_parameters, JList [path_param ?a ''integer'']),
                   (''get'', JDict (operation example_generator example_collaborators None (Some []) example_endpoint))])]"
    by code_simp
  have h4: "\<not> skipped example_generator ?ma" by (simp add: skipped_def example_endpoint_def)
  have h5: "\<not> skipped example_generator ?mb" by (simp add: skipped_def example_endpoint_def)
  have h6: "format_path_for_swagger example_collaborators ''/widgets/<int:id>'' = (''/widgets/{id}'', [?a])"
    by code_simp
  have h7: "format_path_for_swagger example_collaborators ''/widgets/<string:id>'' = (''/widgets/{id}'', [?b])"
    by code_simp
  have h8: "[?a] \<noteq> []" by simp
  have h9: "[?b] \<noteq> []" by simp
  have h10: "path_params_of example_generator [?a] = Inr [path_param ?a ''integer'']"
    by (simp add: example_generator_def)
  have h11: "path_params_of example_generator [?b] = Inr [path_param ?b ''string'']"
    by (simp add: example_generator_def)
  have h12: "\<forall>md \<in> set ?ma. lower (fst md) \<noteq> sw_parameters"
    by (simp add: lower_def lower_char_def)
  have h13: "\<forall>pm \<in> set []. skipped example_generator (snd pm) \<or>
               fst (format_path_for_swagger example_collaborators (fst pm)) \<noteq> ''/widgets/{id}''"
    by simp
  have "verify_parameters_are_the_same_spec (JList [path_param ?a ''integer'']) (JList [path_param ?b ''string''])
          = Inl ParameterMismatch"
    by (rule verify_spec_rejects_type_conflict [OF h10 h11, of ?a ?b]) (simp_all add: example_generator_def)
  then have h14: "verify_parameters_are_the_same example_collaborators
          (JList [path_param ?a ''integer'']) (JList [path_param ?b ''string'']) = Inl ParameterMismatch"
    by (simp add: example_collaborators_def)
  from conflicting_path_parameters_rejected [OF h1 h2 h3 h4 h5 h6 h7 h8 h9 h10 h11 h12 h13 h14]
  have "generate example_generator example_collaborators example_conflict_registry None True =
          Inl ParameterMismatch" .
  with h1 h4 h5 h6 h7 h14 show ?thesis by blast
qed

text \<open>
  C1, as stated, fails: \<open>/widgets/<int:id>\<close> and \<open>/widgets/<string:id>\<close> format to the same
  spec path and declare \<open>id\<close> as \<open>integer\<close> and as \<open>string\<close>; the first is visible, every
  method of the second is hidden and \<open>include_hidden\<close> is false. \<open>generate\<close> returns a
  document, with \<open>id\<close> typed \<open>integer\<close>.
\<close>

theorem hidden_conflict_counterexample:
  "format_path_for_swagger example_collaborators ''/widgets/<int:id>'' =
     (''/widgets/{id}'', [\<lparr>arg_name = ''id'', arg_type = ''int''\<rparr>]) \<and>
   format_path_for_swagger example_collaborators ''/widgets/<string:id>'' =
     (''/widgets/{id}'', [\<lparr>arg_name = ''id'', arg_type = ''string''\<rparr>]) \<and>
   flask_converters_to_swagger_types example_generator ''int'' = Some ''integer'' \<and>
   flask_converters_to_swagger_types example_generator ''string'' = Some ''string'' \<and>
   paths example_registry =
     [(''/widgets/<int:id>'', [(''GET'', example_endpoint)]),
      (''/widgets/<string:id>'', [(''GET'', example_endpoint\<lparr>hidden := True\<rparr>)])] \<and>
   hidden example_endpoint = False \<and>
   include_hidden example_generator = False \<and>
   generate example_generator example_collaborators example_registry None True =
     Inr (JDict
       [(sw_components, JDict []),
        (sw_info, JDict [(''title'', JStr ''My API''), (''version'', JStr ''1.0.0'')]),
        (sw_openapi, JStr open_api_version),
        (sw_paths,
         JDict
          [(''/widgets/{id}'',
            JDict
             [(''get'',
               JDict
                [(sw_operation_id, JStr ''get_widget''),
                 (sw_responses,
                  JDict
                   [(sw_default,
                     JDict
                      [(sw_content,
                        JDict
                         [(application_json,
                           JDict [(sw_schema, JDict [(''$ref'', JStr ''#/components/schemas/Error'')])])]),
                       (sw_description, JStr ''Error'')])])]),
              (sw_parameters,
               JList
                [JDict
                  [(sw_in, JStr sw_path), (sw_name, JStr ''id''),
                   (sw_required, JBool True),
                   (sw_schema, JDict [(sw_type, JStr ''integer'')]),
                   (sw_style, JStr sw_simple)]])])]),
        (sw_security, JList [JDict [(''basic'', JList [])]])])"
  by code_simp

end
